theory Spec2Isabelle
  imports Main "HOL-Library.Word" "HOL-Library.Char_ord" "HOL-Library.List_Lexorder"
begin

section \<open>Overview\<close>

text \<open>
  The parts of the event-sourcing library that its specification makes claims
  about, function by function: the worker balancer (\<open>run\<close>, \<open>balance\<close>),
  \<open>EventStore.Save\<close>, the PostgreSQL repository (\<open>SaveEvent\<close>, \<open>withTx\<close>,
  \<open>isPgDup\<close>, \<open>GetEvents\<close>, \<open>buildFilter\<close>, \<open>queryEvents\<close>), the partition match
  of the MongoDB feed, and the bootable projection manager (\<open>boot\<close>, \<open>OnBoot\<close>,
  \<open>Freeze\<close>, \<open>Unfreeze\<close>, \<open>Wait\<close>).

  Effects are explicit. A function that changes a store, a table or the manager takes
  the state and returns the new one; a function that can fail returns its error as a
  value; what lies outside the program (the clock, the database driver, the bus, the
  projection) enters as a parameter. The \<open>uint32\<close> of the sources is \<open>32 word\<close>.
  The definitions come first; the theorems follow, one section for each part.
\<close>

section \<open>Worker balancing (worker/balance\_workers.go)\<close>

text \<open>
  A member of the member list with the worker names it claims, and a worker as the
  balancer sees it: its name, whether it is running, and whether a call to
  \<open>Start\<close> would acquire its distributed lock (the outcome of \<open>Start\<close> is the
  environment's, so it is a field of the model).
\<close>

record MemberWorkers =
  mw_Name :: string
  mw_Workers :: "string list"

record Worker =
  w_Name :: string
  w_IsRunning :: bool
  w_StartOk :: bool

definition Stop :: "Worker \<Rightarrow> Worker" where
  "Stop v = v\<lparr>w_IsRunning := False\<rparr>"

definition Start :: "Worker \<Rightarrow> bool \<times> Worker" where
  "Start v = (if w_StartOk v then (True, v\<lparr>w_IsRunning := True\<rparr>) else (False, v))"

text \<open>
  The first part of \<open>run\<close>: \<open>present\<close>, \<open>membersCount\<close>, \<open>monitorsNo\<close>,
  the first value of \<open>workersToAcquire\<close>, the maps \<open>workersInUse\<close> and
  \<open>myRunningWorkers\<close> (Go maps keyed by name: a list without duplicates here), and
  \<open>allHaveMinWorkers\<close>. The loop over \<open>members\<close> tests every listed member, this
  process's own entry included.
\<close>

definition present :: "string \<Rightarrow> MemberWorkers list \<Rightarrow> bool" where
  "present self members = list_ex (\<lambda>v. mw_Name v = self) members"

definition membersCount :: "string \<Rightarrow> MemberWorkers list \<Rightarrow> nat" where
  "membersCount self members =
     (if present self members then length members else length members + 1)"

definition minWorkers :: "string \<Rightarrow> MemberWorkers list \<Rightarrow> Worker list \<Rightarrow> nat" where
  "minWorkers self members workers = length workers div membersCount self members"

definition myRunningWorkers :: "Worker list \<Rightarrow> string list" where
  "myRunningWorkers workers = remdups (map w_Name (filter w_IsRunning workers))"

definition workersInUse :: "string \<Rightarrow> MemberWorkers list \<Rightarrow> Worker list \<Rightarrow> string list" where
  "workersInUse self members workers =
     remdups (concat (map mw_Workers (filter (\<lambda>m. mw_Name m \<noteq> self) members))
              @ myRunningWorkers workers)"

definition allHaveMinWorkers :: "string \<Rightarrow> MemberWorkers list \<Rightarrow> Worker list \<Rightarrow> bool" where
  "allHaveMinWorkers self members workers =
     (let workersToAcquire = minWorkers self members workers;
          allHave = list_all (\<lambda>m. \<not> length (mw_Workers m) < workersToAcquire) members
      in if length (myRunningWorkers workers) < workersToAcquire then False else allHave)"

definition workersToAcquire :: "string \<Rightarrow> MemberWorkers list \<Rightarrow> Worker list \<Rightarrow> nat" where
  "workersToAcquire self members workers =
     (if allHaveMinWorkers self members workers
         \<and> length workers mod membersCount self members \<noteq> 0
      then minWorkers self members workers + 1
      else minWorkers self members workers)"

text \<open>
  The loop of \<open>balance\<close> over the workers, in their configured order. The state is the
  count \<open>running\<close> and the map \<open>myRunningWorkers\<close>; the result also holds the workers
  as \<open>Start\<close> and \<open>Stop\<close> left them. The loop ends at the first worker after which
  \<open>running\<close> equals the target.
\<close>

fun balance_loop ::
  "nat \<Rightarrow> string list \<Rightarrow> Worker list \<Rightarrow> nat \<Rightarrow> string list \<Rightarrow> Worker list \<times> string list" where
  "balance_loop target inUse [] running mine = ([], mine)"
| "balance_loop target inUse (v # vs) running mine =
     (if running > target then
        (if \<not> w_IsRunning v then
           (case balance_loop target inUse vs running mine of (vs', m') \<Rightarrow> (v # vs', m'))
         else
           (let mine' = removeAll (w_Name v) mine in
            if running - 1 = target then (Stop v # vs, mine')
            else (case balance_loop target inUse vs (running - 1) mine' of
                    (vs', m') \<Rightarrow> (Stop v # vs', m'))))
      else
        (if w_Name v \<in> set inUse then
           (case balance_loop target inUse vs running mine of (vs', m') \<Rightarrow> (v # vs', m'))
         else
           (case Start v of
              (True, v') \<Rightarrow>
                (let mine' = (if w_Name v \<in> set mine then mine else mine @ [w_Name v]) in
                 if running + 1 = target then (v' # vs, mine')
                 else (case balance_loop target inUse vs (running + 1) mine' of
                         (vs', m') \<Rightarrow> (v' # vs', m')))
            | (False, v') \<Rightarrow>
                (if running = target then (v' # vs, mine)
                 else (case balance_loop target inUse vs running mine of
                         (vs', m') \<Rightarrow> (v' # vs', m'))))))"

definition balance ::
  "Worker list \<Rightarrow> nat \<Rightarrow> string list \<Rightarrow> string list \<Rightarrow> Worker list \<times> string list" where
  "balance workers target inUse mine =
     (if length mine = target then (workers, mine)
      else balance_loop target inUse workers (length mine) mine)"

text \<open>
  \<open>run\<close>: \<open>member.List\<close> either fails (the error is returned and nothing else
  happens) or gives the members. The result is the error, the workers after the
  iteration, the names given to \<open>member.Register\<close>, and the target handed to
  \<open>balance\<close>.
\<close>

datatype list_error = ListError string

definition run ::
  "string \<Rightarrow> (list_error + MemberWorkers list) \<Rightarrow> Worker list
     \<Rightarrow> list_error option \<times> Worker list \<times> string list option \<times> nat option" where
  "run self listed workers =
     (case listed of
        Inl e \<Rightarrow> (Some e, workers, None, None)
      | Inr members \<Rightarrow>
          (let target = workersToAcquire self members workers in
           case balance workers target (workersInUse self members workers)
                  (myRunningWorkers workers) of
             (workers', locks) \<Rightarrow> (None, workers', Some locks, Some target)))"

text \<open>
  The target as the specification words it: only the members other than this process
  are asked for the minimum, beside the locally running workers. It is compared with
  \<open>workersToAcquire\<close> below.
\<close>

definition spec_target :: "string \<Rightarrow> MemberWorkers list \<Rightarrow> Worker list \<Rightarrow> nat" where
  "spec_target self members workers =
     (let W = length workers;
          M = length members + (if self \<in> set (map mw_Name members) then 0 else 1);
          others = filter (\<lambda>m. mw_Name m \<noteq> self) members
      in if W mod M \<noteq> 0
            \<and> list_all (\<lambda>m. W div M \<le> length (mw_Workers m)) others
            \<and> W div M \<le> length (myRunningWorkers workers)
         then W div M + 1 else W div M)"

section \<open>The event store (eventstore.go)\<close>

text \<open>
  A \<open>time.Time\<close> is an instant: the number of nanoseconds since Go's zero time, an
  integer. A \<open>time.Duration\<close> is a number of nanoseconds. Byte slices and event IDs
  are strings.
\<close>

type_synonym time = int
type_synonym duration = int

definition Millisecond :: duration where
  "Millisecond = 1000000"

text \<open>\<open>t.Truncate(d)\<close> rounds the instant down to a multiple of \<open>d\<close>; for
  \<open>d \<le> 0\<close> it gives \<open>t\<close> back.\<close>

definition Truncate :: "time \<Rightarrow> duration \<Rightarrow> time" where
  "Truncate t d = (if d \<le> 0 then t else t - t mod d)"

text \<open>
  The errors of the program as values: the two sentinel errors of eventstore.go, a
  \<open>*pq.Error\<close> with its SQLSTATE code and the constraint it names, any other failure
  of a collaborator, an error wrapped with a message (\<open>fmt.Errorf("...: %w", err)\<close>),
  and a run-time panic.
\<close>

datatype error =
    ErrConcurrentModification
  | ErrUnknownAggregateID
  | PqError string string
  | Failure string
  | Wrap string error
  | Panic string

text \<open>A JSON value of the labels: a string, or a value \<open>json.Marshal\<close> refuses.\<close>

datatype label_value = LStr string | LUnsupported

record EventRecordDetail =
  d_Kind :: string
  d_Body :: string

record EventRecord =
  r_AggregateID :: string
  r_Version :: "32 word"
  r_AggregateType :: string
  r_IdempotencyKey :: string
  r_Labels :: "(string \<times> label_value) list"
  r_CreatedAt :: time
  r_Details :: "EventRecordDetail list"

record Snapshot =
  s_ID :: string
  s_AggregateID :: string
  s_AggregateVersion :: "32 word"
  s_AggregateType :: string
  s_Body :: string
  s_CreatedAt :: time

record Options =
  o_IdempotencyKey :: string
  o_Labels :: "(string \<times> label_value) list"

text \<open>
  An \<open>Aggregater\<close> is an interface; the model is a record of what its getters return,
  and the setters update the field of their name. \<open>'e\<close> is the type of the pending
  events (\<open>Eventer\<close>).
\<close>

record 'e Aggregater =
  ag_Type :: string
  ag_ID :: string
  ag_Version :: "32 word"
  ag_EventsCounter :: "32 word"
  ag_Events :: "'e list"
  ag_UpdatedAt :: time

definition SetVersion :: "'e Aggregater \<Rightarrow> 32 word \<Rightarrow> 'e Aggregater" where
  "SetVersion a v = a\<lparr>ag_Version := v\<rparr>"


definition ClearEvents :: "'e Aggregater \<Rightarrow> 'e Aggregater" where
  "ClearEvents a = a\<lparr>ag_Events := []\<rparr>"

text \<open>
  The \<open>EventStore\<close>: the repository behind the \<open>EsRepository\<close> interface, as two
  functions over a store state \<open>'s\<close> (each returns its result and the new state), the
  snapshot threshold, and the codec (\<open>Encode\<close> on an event and on the aggregate) with the
  event's \<open>GetType\<close>.
\<close>

record ('s, 'e) EventStore =
  store_SaveEvent :: "'s \<Rightarrow> EventRecord \<Rightarrow> (error + string \<times> 32 word) \<times> 's"
  store_SaveSnapshot :: "'s \<Rightarrow> Snapshot \<Rightarrow> error option \<times> 's"
  snapshotThreshold :: "32 word"
  codec_Encode :: "'e \<Rightarrow> error + string"
  codec_EncodeAggregate :: "'e Aggregater \<Rightarrow> error + string"
  e_GetType :: "'e \<Rightarrow> string"

text \<open>The calls \<open>Save\<close> makes on the repository, in order.\<close>

datatype store_call = CallSaveEvent EventRecord | CallSaveSnapshot Snapshot

text \<open>
  The timestamp of a save: the clock reading \<open>now\<close>, truncated to the millisecond, and
  replaced by \<open>GetUpdatedAt\<close> plus one millisecond when it is before or equal to
  \<open>GetUpdatedAt\<close>.
\<close>

definition save_now :: "time \<Rightarrow> time \<Rightarrow> time" where
  "save_now now updatedAt =
     (let now' = Truncate now Millisecond
      in if now' < updatedAt \<or> now' = updatedAt then updatedAt + Millisecond else now')"

text \<open>The loop that encodes the events into the details; the first error ends it.\<close>

fun encode_details :: "('s, 'e) EventStore \<Rightarrow> 'e list \<Rightarrow> error + EventRecordDetail list" where
  "encode_details es [] = Inr []"
| "encode_details es (e # events) =
     (case codec_Encode es e of
        Inl err \<Rightarrow> Inl err
      | Inr body \<Rightarrow>
          (case encode_details es events of
             Inl err \<Rightarrow> Inl err
           | Inr details \<Rightarrow> Inr (\<lparr>d_Kind = e_GetType es e, d_Body = body\<rparr> # details)))"

text \<open>
  \<open>Save\<close>. \<open>now\<close> and \<open>now2\<close> are the two readings of \<open>time.Now().UTC()\<close> (the second
  one stamps the snapshot). The result is the returned error (\<open>None\<close> is \<open>nil\<close>), the
  aggregate and the store as the call left them, and the calls made on the repository.
\<close>

definition Save ::
  "('s, 'e) EventStore \<Rightarrow> time \<Rightarrow> time \<Rightarrow> 's \<Rightarrow> 'e Aggregater \<Rightarrow> Options
     \<Rightarrow> error option \<times> 'e Aggregater \<times> 's \<times> store_call list" where
  "Save es now now2 st aggregate opts =
     (let events = ag_Events aggregate in
      if length events = 0 then (None, aggregate, st, [])
      else
        (let now' = save_now now (ag_UpdatedAt aggregate) in
         case encode_details es events of
           Inl err \<Rightarrow> (Some err, aggregate, st, [])
         | Inr details \<Rightarrow>
             (let rec = \<lparr>r_AggregateID = ag_ID aggregate,
                         r_Version = ag_Version aggregate,
                         r_AggregateType = ag_Type aggregate,
                         r_IdempotencyKey = o_IdempotencyKey opts,
                         r_Labels = o_Labels opts,
                         r_CreatedAt = now',
                         r_Details = details\<rparr>
              in case store_SaveEvent es st rec of
                   (Inl err, st1) \<Rightarrow> (Some err, aggregate, st1, [CallSaveEvent rec])
                 | (Inr (eid, lastVersion), st1) \<Rightarrow>
                     (let a1 = SetVersion aggregate lastVersion in
                      if snapshotThreshold es \<le> ag_EventsCounter a1 then
                        (case codec_EncodeAggregate es a1 of
                           Inl err \<Rightarrow>
                             (Some (Wrap ''Failed to create serialize snapshot'' err), a1, st1,
                              [CallSaveEvent rec])
                         | Inr body \<Rightarrow>
                             (let snap = \<lparr>s_ID = eid,
                                          s_AggregateID = ag_ID a1,
                                          s_AggregateVersion = ag_Version a1,
                                          s_AggregateType = ag_Type a1,
                                          s_Body = body,
                                          s_CreatedAt = now2\<rparr>
                              in case store_SaveSnapshot es st1 snap of
                                   (Some err, st2) \<Rightarrow>
                                     (Some err, a1, st2, [CallSaveEvent rec, CallSaveSnapshot snap])
                                 | (None, st2) \<Rightarrow>
                                     (None, ClearEvents a1, st2,
                                      [CallSaveEvent rec, CallSaveSnapshot snap])))
                      else (None, ClearEvents a1, st1, [CallSaveEvent rec])))))"

section \<open>Concrete stores and aggregates for the examples\<close>

text \<open>
  A repository whose \<open>SaveEvent\<close> succeeds (it counts the calls in its state) and
  whose \<open>SaveSnapshot\<close> fails, an aggregate with one pending event, and the same
  aggregate with an update time that is not a whole number of milliseconds and lies
  ahead of the clock.
\<close>

definition failing_snapshots :: "(nat, string) EventStore" where
  "failing_snapshots =
     \<lparr>store_SaveEvent =
        (\<lambda>s r. (Inr (''id'', r_Version r + word_of_nat (length (r_Details r))), Suc s)),
      store_SaveSnapshot = (\<lambda>s x. (Some (Failure ''snapshots table is gone''), s)),
      snapshotThreshold = 1,
      codec_Encode = (\<lambda>e. Inr e),
      codec_EncodeAggregate = (\<lambda>a. Inr ''{}''),
      e_GetType = (\<lambda>e. ''Deposited'')\<rparr>"

definition one_pending :: "string Aggregater" where
  "one_pending =
     \<lparr>ag_Type = ''Account'', ag_ID = ''a1'', ag_Version = 7, ag_EventsCounter = 8,
      ag_Events = [''{amount: 5}''], ag_UpdatedAt = 4000000\<rparr>"





section \<open>The PostgreSQL repository (store/postgresql)\<close>

definition pgUniqueViolation :: string where
  "pgUniqueViolation = ''23505''"

text \<open>
  A row of the \<open>events\<close> table, column by column. \<open>idempotency_key\<close> is the one
  nullable column of the schema (\<open>None\<close> is SQL's NULL); \<open>labels\<close> is the JSON object
  of the labels.
\<close>

record event_row =
  e_id :: string
  e_aggregate_id :: string
  e_aggregate_version :: "32 word"
  e_aggregate_type :: string
  e_kind :: string
  e_body :: string
  e_idempotency_key :: "string option"
  e_labels :: "(string \<times> string) list"
  e_created_at :: time
  e_aggregate_id_hash :: "32 word"

text \<open>The \<open>eventstore.Event\<close> of this revision, with the fields the repository sets.\<close>

record Event =
  ev_ID :: string
  ev_AggregateID :: string
  ev_AggregateVersion :: "32 word"
  ev_AggregateType :: string
  ev_Kind :: string
  ev_Body :: string
  ev_Labels :: "(string \<times> string) list"
  ev_CreatedAt :: time

text \<open>
  A unique index of the table: its name, and when two rows collide on it. A unique
  index never collides on a NULL. \<open>dbSchema\<close> are the indexes that
  test/pg/shared\_test.go creates (the primary key on \<open>id\<close>, \<open>evt_agg_id_ver_uk\<close> and
  \<open>evt_agg_idempot_uk\<close>); \<open>dbSchema_repo\<close> are those of the older schema of the
  repository's own test (the primary key and \<open>UNIQUE (aggregate_id, aggregate_version)\<close>).
\<close>

type_synonym unique_index = "string \<times> (event_row \<Rightarrow> event_row \<Rightarrow> bool)"

definition events_pkey :: unique_index where
  "events_pkey = (''events_pkey'', \<lambda>a b. e_id a = e_id b)"

definition evt_agg_id_ver_uk :: unique_index where
  "evt_agg_id_ver_uk =
     (''evt_agg_id_ver_uk'',
      \<lambda>a b. e_aggregate_id a = e_aggregate_id b
             \<and> e_aggregate_version a = e_aggregate_version b)"

definition evt_agg_idempot_uk :: unique_index where
  "evt_agg_idempot_uk =
     (''evt_agg_idempot_uk'',
      \<lambda>a b. e_aggregate_type a = e_aggregate_type b
             \<and> e_idempotency_key a \<noteq> None
             \<and> e_idempotency_key a = e_idempotency_key b)"

definition dbSchema :: "unique_index list" where
  "dbSchema = [events_pkey, evt_agg_id_ver_uk, evt_agg_idempot_uk]"

definition dbSchema_repo :: "unique_index list" where
  "dbSchema_repo = [events_pkey, evt_agg_id_ver_uk]"

text \<open>
  The database: the unique indexes of the \<open>events\<close> table, its rows in insertion
  order, and the events a configured projector has been handed inside a transaction.
\<close>

record pg_db =
  pg_indexes :: "unique_index list"
  pg_events :: "event_row list"
  pg_projected :: "Event list"

text \<open>
  What the repository takes from outside: \<open>common.NewEventID\<close> and \<open>common.Hash\<close>
  (their package is not among the sources, so they are parameters), whether a
  \<open>projectorFactory\<close> is configured, and the failures of the driver that do not come
  from the table: of \<open>BeginTx\<close>, of the \<open>k\<close>-th statement of the transaction, of
  \<open>Commit\<close>, and of a query.
\<close>

record pg_env =
  NewEventID :: "time \<Rightarrow> string \<Rightarrow> 32 word \<Rightarrow> string"
  Hash :: "string \<Rightarrow> 32 word"
  projectorFactory :: bool
  BeginTx_err :: "string option"
  Exec_err :: "nat \<Rightarrow> error option"
  Commit_err :: "string option"
  Query_err :: "string option"

definition isPgDup :: "error \<Rightarrow> bool" where
  "isPgDup err = (case err of PqError code c \<Rightarrow> code = pgUniqueViolation | _ \<Rightarrow> False)"

text \<open>\<open>json.Marshal\<close> of the labels fails on a value it does not support.\<close>

definition json_Marshal :: "(string \<times> label_value) list \<Rightarrow> error + (string \<times> string) list" where
  "json_Marshal labels =
     (if list_ex (\<lambda>kv. snd kv = LUnsupported) labels
      then Inl (Failure ''json: unsupported type'')
      else Inr (map (\<lambda>kv. (fst kv, case snd kv of LStr s \<Rightarrow> s | LUnsupported \<Rightarrow> [])) labels))"

text \<open>
  The \<open>INSERT\<close> of one row as the \<open>k\<close>-th statement of a transaction: a failure of the
  driver, or a unique violation (SQLSTATE 23505, naming the first index on which the
  row collides with a row of the table), or the row is appended.
\<close>

definition violated :: "unique_index list \<Rightarrow> event_row list \<Rightarrow> event_row \<Rightarrow> string option" where
  "violated indexes tbl r = map_option fst (find (\<lambda>ix. list_ex (snd ix r) tbl) indexes)"

definition ExecContext_insert :: "pg_env \<Rightarrow> nat \<Rightarrow> pg_db \<Rightarrow> event_row \<Rightarrow> error + pg_db" where
  "ExecContext_insert env k tx r =
     (case Exec_err env k of
        Some err \<Rightarrow> Inl err
      | None \<Rightarrow>
          (case violated (pg_indexes tx) (pg_events tx) r of
             Some c \<Rightarrow> Inl (PqError pgUniqueViolation c)
           | None \<Rightarrow> Inr (tx\<lparr>pg_events := pg_events tx @ [r]\<rparr>)))"

text \<open>
  \<open>withTx\<close>: \<open>fn\<close> runs on the transaction's view of the database and returns its
  error, the variables it captured, and the view it left. The view becomes the
  database only when \<open>fn\<close> returns \<open>nil\<close> and \<open>Commit\<close> succeeds; every other path
  rolls back.
\<close>

definition withTx ::
  "pg_env \<Rightarrow> pg_db \<Rightarrow> 'v \<Rightarrow> (pg_db \<Rightarrow> error option \<times> 'v \<times> pg_db) \<Rightarrow> error option \<times> 'v \<times> pg_db" where
  "withTx env db vars fn =
     (case BeginTx_err env of
        Some msg \<Rightarrow> (Some (Failure msg), vars, db)
      | None \<Rightarrow>
          (case fn db of
             (Some err, vars', tx) \<Rightarrow> (Some err, vars', db)
           | (None, vars', tx) \<Rightarrow>
               (case Commit_err env of
                  Some msg \<Rightarrow> (Some (Failure msg), vars', db)
                | None \<Rightarrow> (None, vars', tx))))"

text \<open>
  The row that \<open>SaveEvent\<close> inserts for a detail at a version. The idempotency key is
  a Go string, so it is never NULL in the row.
\<close>

definition detail_row ::
  "pg_env \<Rightarrow> EventRecord \<Rightarrow> (string \<times> string) list \<Rightarrow> 32 word \<Rightarrow> EventRecordDetail \<Rightarrow> event_row" where
  "detail_row env eRec labels version e =
     \<lparr>e_id = NewEventID env (r_CreatedAt eRec) (r_AggregateID eRec) version,
      e_aggregate_id = r_AggregateID eRec,
      e_aggregate_version = version,
      e_aggregate_type = r_AggregateType eRec,
      e_kind = d_Kind e,
      e_body = d_Body e,
      e_idempotency_key = Some (r_IdempotencyKey eRec),
      e_labels = labels,
      e_created_at = r_CreatedAt eRec,
      e_aggregate_id_hash = Hash env (r_AggregateID eRec)\<rparr>"

definition row_Event :: "event_row \<Rightarrow> Event" where
  "row_Event r =
     \<lparr>ev_ID = e_id r,
      ev_AggregateID = e_aggregate_id r,
      ev_AggregateVersion = e_aggregate_version r,
      ev_AggregateType = e_aggregate_type r,
      ev_Kind = e_kind r,
      ev_Body = e_body r,
      ev_Labels = e_labels r,
      ev_CreatedAt = e_created_at r\<rparr>"

text \<open>
  The loop of \<open>SaveEvent\<close> over the details, inside the transaction. \<open>k\<close> counts the
  statements; \<open>version\<close> and \<open>id\<close> are the variables the closure captures. The first
  failing insert ends the loop: a unique violation becomes
  \<open>ErrConcurrentModification\<close>, any other error is wrapped.
\<close>

fun insert_details ::
  "pg_env \<Rightarrow> EventRecord \<Rightarrow> (string \<times> string) list \<Rightarrow> nat \<Rightarrow> 32 word \<times> string \<Rightarrow> pg_db
     \<Rightarrow> EventRecordDetail list \<Rightarrow> error option \<times> (32 word \<times> string) \<times> pg_db" where
  "insert_details env eRec labels k (version, eid) tx [] = (None, (version, eid), tx)"
| "insert_details env eRec labels k (version, eid) tx (e # es) =
     (let version' = version + 1;
          row = detail_row env eRec labels version' e;
          eid' = e_id row
      in case ExecContext_insert env k tx row of
           Inl err \<Rightarrow>
             (if isPgDup err then (Some ErrConcurrentModification, (version', eid'), tx)
              else (Some (Wrap ''Unable to insert event'' err), (version', eid'), tx))
         | Inr tx' \<Rightarrow>
             insert_details env eRec labels (Suc k) (version', eid')
               (if projectorFactory env
                then tx'\<lparr>pg_projected := pg_projected tx' @ [row_Event row]\<rparr> else tx')
               es)"

definition SaveEvent :: "pg_env \<Rightarrow> pg_db \<Rightarrow> EventRecord \<Rightarrow> (error + string \<times> 32 word) \<times> pg_db" where
  "SaveEvent env db eRec =
     (case json_Marshal (r_Labels eRec) of
        Inl err \<Rightarrow> (Inl err, db)
      | Inr labels \<Rightarrow>
          (case withTx env db (r_Version eRec, [])
                  (\<lambda>tx. insert_details env eRec labels 0 (r_Version eRec, []) tx (r_Details eRec)) of
             (Some err, vars, db') \<Rightarrow> (Inl err, db')
           | (None, (version, eid), db') \<Rightarrow> (Inr (eid, version), db')))"

subsection \<open>Queries\<close>

text \<open>
  \<open>store.Filter\<close>, with the fields the repository reads (its declaration is not among
  the sources; the partition fields have the type of the feed's, \<open>uint32\<close>). The labels
  map a key to the values accepted for it.
\<close>

record Filter =
  f_AggregateTypes :: "string list"
  f_Partitions :: "32 word"
  f_PartitionsLow :: "32 word"
  f_PartitionsHi :: "32 word"
  f_Labels :: "(string \<times> string list) list"

text \<open>
  The text of a query is built from conditions joined by \<open>AND\<close>, each over the
  numbered placeholders \<open>$n\<close> of the argument list. One constructor stands for each
  piece of text the repository writes:
  \<^item> \<open>IdGt n\<close> for \<open>id > $n\<close>;
  \<^item> \<open>CreatedAtLe n\<close> for \<open>created_at <= $n\<close>;
  \<^item> \<open>AggregateTypeIn ns\<close> for \<open>(aggregate_type = $n1 OR aggregate_type = $n2 ...)\<close>;
  \<^item> \<open>HashModEq a b\<close> for \<open>MOD(aggregate_id_hash, $a) = $b\<close>;
  \<^item> \<open>HashModBetween a b c\<close> for \<open>MOD(aggregate_id_hash, $a) BETWEEN $b AND $c\<close>;
  \<^item> \<open>LabelsGroup k vs\<close> for the text written for one key of the labels: an opening
    parenthesis, the containment tests \<open>labels @> '{"k": "v"}'\<close> joined by \<open>OR\<close>, and
    a closing parenthesis after each test.
\<close>

datatype sql_arg = AStr string | ATime time | AInt int

datatype cond =
    IdGt nat
  | CreatedAtLe nat
  | AggregateTypeIn "nat list"
  | HashModEq nat nat
  | HashModBetween nat nat nat
  | LabelsGroup string "string list"

record query =
  q_where :: "cond list"
  q_limit :: "nat option"

definition escape :: "string \<Rightarrow> string" where
  "escape s = concat (map (\<lambda>c. if c = CHR 0x27 then [c, c] else [c]) s)"

text \<open>What a quoted SQL literal denotes: a doubled quote stands for one quote.\<close>

fun sql_unquote :: "string \<Rightarrow> string" where
  "sql_unquote (a # b # s) =
     (if a = CHR 0x27 \<and> b = CHR 0x27 then a # sql_unquote s else a # sql_unquote (b # s))"
| "sql_unquote s = s"

definition buildFilter :: "Filter \<Rightarrow> cond list \<Rightarrow> sql_arg list \<Rightarrow> cond list \<times> sql_arg list" where
  "buildFilter fltr query args =
     (let (query1, args1) =
            (if length (f_AggregateTypes fltr) > 0
             then (query @ [AggregateTypeIn
                              [length args + 1 ..< length args + 1 + length (f_AggregateTypes fltr)]],
                   args @ map AStr (f_AggregateTypes fltr))
             else (query, args));
          (query2, args2) =
            (if f_Partitions fltr > 0
             then (let size = length args1 in
                   if f_PartitionsLow fltr = f_PartitionsHi fltr
                   then (query1 @ [HashModEq (size + 1) (size + 2)],
                         args1 @ [AInt (uint (f_Partitions fltr)),
                                  AInt (uint (f_PartitionsLow fltr - 1))])
                   else (query1 @ [HashModBetween (size + 1) (size + 2) (size + 4)],
                         args1 @ [AInt (uint (f_Partitions fltr)),
                                  AInt (uint (f_PartitionsLow fltr - 1)),
                                  AInt (uint (f_PartitionsHi fltr - 1))]))
             else (query1, args1))
      in (query2 @ map (\<lambda>kv. LabelsGroup (escape (fst kv)) (map escape (snd kv))) (f_Labels fltr),
          args2))"

text \<open>
  The database's side. \<open>arg args n\<close> is the argument bound to \<open>$n\<close>. A statement
  runs only if every placeholder of its text is bound to an argument of the column's
  type, the modulus is not zero, and the parentheses of every labels group balance
  (which they do for exactly one value). Then a row is selected when every condition
  holds for it.
\<close>

definition arg :: "sql_arg list \<Rightarrow> nat \<Rightarrow> sql_arg option" where
  "arg args n = (if 1 \<le> n \<and> n \<le> length args then Some (args ! (n - 1)) else None)"

definition arg_str :: "sql_arg list \<Rightarrow> nat \<Rightarrow> string option" where
  "arg_str args n = (case arg args n of Some (AStr s) \<Rightarrow> Some s | _ \<Rightarrow> None)"

definition arg_time :: "sql_arg list \<Rightarrow> nat \<Rightarrow> time option" where
  "arg_time args n = (case arg args n of Some (ATime t) \<Rightarrow> Some t | _ \<Rightarrow> None)"

definition arg_int :: "sql_arg list \<Rightarrow> nat \<Rightarrow> int option" where
  "arg_int args n = (case arg args n of Some (AInt i) \<Rightarrow> Some i | _ \<Rightarrow> None)"

fun cond_ok :: "sql_arg list \<Rightarrow> cond \<Rightarrow> bool" where
  "cond_ok args (IdGt n) = (arg_str args n \<noteq> None)"
| "cond_ok args (CreatedAtLe n) = (arg_time args n \<noteq> None)"
| "cond_ok args (AggregateTypeIn ns) = list_all (\<lambda>n. arg_str args n \<noteq> None) ns"
| "cond_ok args (HashModEq a b) =
     (arg_int args a \<noteq> None \<and> arg_int args a \<noteq> Some 0 \<and> arg_int args b \<noteq> None)"
| "cond_ok args (HashModBetween a b c) =
     (arg_int args a \<noteq> None \<and> arg_int args a \<noteq> Some 0 \<and> arg_int args b \<noteq> None
      \<and> arg_int args c \<noteq> None)"
| "cond_ok args (LabelsGroup k vs) = (length vs = 1)"

fun cond_holds :: "sql_arg list \<Rightarrow> event_row \<Rightarrow> cond \<Rightarrow> bool" where
  "cond_holds args r (IdGt n) = (case arg_str args n of Some s \<Rightarrow> s < e_id r | None \<Rightarrow> False)"
| "cond_holds args r (CreatedAtLe n) =
     (case arg_time args n of Some t \<Rightarrow> e_created_at r \<le> t | None \<Rightarrow> False)"
| "cond_holds args r (AggregateTypeIn ns) =
     list_ex (\<lambda>n. arg_str args n = Some (e_aggregate_type r)) ns"
| "cond_holds args r (HashModEq a b) =
     (case (arg_int args a, arg_int args b) of
        (Some n, Some v) \<Rightarrow> uint (e_aggregate_id_hash r) mod n = v
      | _ \<Rightarrow> False)"
| "cond_holds args r (HashModBetween a b c) =
     (case (arg_int args a, arg_int args b, arg_int args c) of
        (Some n, Some lo, Some hi) \<Rightarrow>
          lo \<le> uint (e_aggregate_id_hash r) mod n \<and> uint (e_aggregate_id_hash r) mod n \<le> hi
      | _ \<Rightarrow> False)"
| "cond_holds args r (LabelsGroup k vs) =
     list_ex (\<lambda>v. (sql_unquote k, sql_unquote v) \<in> set (e_labels r)) vs"

text \<open>
  The result set of a query that ends in \<open>ORDER BY id ASC\<close> and an optional
  \<open>LIMIT\<close>: the selected rows, sorted by \<open>id\<close> (byte-wise), cut to the limit.
\<close>

definition select_rows :: "pg_db \<Rightarrow> query \<Rightarrow> sql_arg list \<Rightarrow> event_row list" where
  "select_rows db q args =
     (let rows = sort_key e_id
                   (filter (\<lambda>r. list_all (cond_holds args r) (q_where q)) (pg_events db))
      in case q_limit q of None \<Rightarrow> rows | Some n \<Rightarrow> take n rows)"

text \<open>
  \<open>rows.StructScan\<close> puts a row of the result set into the repository's struct
  \<open>Event\<close>. \<open>Event_db_tags\<close> are the columns that struct has a field for (its
  \<open>db\<close> tags); \<open>events_columns\<close> are the columns that \<open>SELECT *\<close> returns, those of
  the table that \<open>SaveEvent\<close> inserts into. The scan fails when a returned column has
  no field in the struct, and when it would put a NULL into a Go string.
\<close>

definition Event_db_tags :: "string list" where
  "Event_db_tags =
     [''id'', ''aggregate_id'', ''aggregate_version'', ''aggregate_type'', ''kind'', ''body'',
      ''idempotency_key'', ''labels'', ''created_at'']"

definition events_columns :: "string list" where
  "events_columns =
     [''id'', ''aggregate_id'', ''aggregate_id_hash'', ''aggregate_version'',
      ''aggregate_type'', ''kind'', ''body'', ''idempotency_key'', ''labels'', ''created_at'']"

definition StructScan :: "event_row \<Rightarrow> error + event_row" where
  "StructScan r =
     (case find (\<lambda>c. c \<notin> set Event_db_tags) events_columns of
        Some c \<Rightarrow> Inl (Failure (''missing destination name '' @ c))
      | None \<Rightarrow>
          (if e_idempotency_key r = None
           then Inl (Failure ''converting NULL to string is unsupported'')
           else Inr r))"

text \<open>
  The loop of \<open>queryEvents\<close> over the rows; the first scan that fails ends it. The
  labels of a row are a JSON object here, as \<open>SaveEvent\<close> writes them, so
  \<open>json.Unmarshal\<close> into the map succeeds on every row that was scanned.
\<close>

fun scan_rows :: "event_row list \<Rightarrow> error + Event list" where
  "scan_rows [] = Inr []"
| "scan_rows (r # rows) =
     (case StructScan r of
        Inl err \<Rightarrow> Inl (Wrap ''Unable to scan to struct'' err)
      | Inr pg \<Rightarrow>
          (case scan_rows rows of
             Inl err \<Rightarrow> Inl err
           | Inr events \<Rightarrow> Inr (row_Event pg # events)))"

text \<open>
  \<open>queryEvents\<close>: the query fails in the driver, or the statement cannot run, or
  its result set is scanned row by row.
\<close>

definition queryEvents :: "pg_env \<Rightarrow> pg_db \<Rightarrow> query \<Rightarrow> sql_arg list \<Rightarrow> error + Event list" where
  "queryEvents env db q args =
     (case Query_err env of
        Some msg \<Rightarrow> Inl (Failure msg)
      | None \<Rightarrow>
          (if \<not> list_all (cond_ok args) (q_where q) then Inl (PqError ''42601'' [])
           else scan_rows (select_rows db q args)))"

text \<open>\<open>GetEvents\<close>; \<open>now\<close> is the reading of \<open>time.Now().UTC()\<close>.\<close>

definition GetEvents ::
  "pg_env \<Rightarrow> time \<Rightarrow> pg_db \<Rightarrow> string \<Rightarrow> int \<Rightarrow> duration \<Rightarrow> Filter \<Rightarrow> error + Event list" where
  "GetEvents env now db afterEventID batchSize trailingLag fltr =
     (let (query1, args1) =
            (if trailingLag \<noteq> 0
             then ([IdGt 1, CreatedAtLe 2], [AStr afterEventID, ATime (now - trailingLag)])
             else ([IdGt 1], [AStr afterEventID]));
          (query2, args2) = buildFilter fltr query1 args1;
          q = \<lparr>q_where = query2,
               q_limit = (if batchSize > 0 then Some (nat batchSize) else None)\<rparr>
      in case queryEvents env db q args2 of
           Inl err \<Rightarrow> Inl (Wrap ''Unable to get events'' err)
         | Inr rows \<Rightarrow> Inr rows)"

text \<open>
  The rows a call of \<open>SaveEvent\<close> sets out to insert, from the version after
  \<open>version\<close> on: one per detail, in order.
\<close>

fun rows_from ::
  "pg_env \<Rightarrow> EventRecord \<Rightarrow> (string \<times> string) list \<Rightarrow> 32 word \<Rightarrow> EventRecordDetail list
     \<Rightarrow> event_row list" where
  "rows_from env eRec labels version [] = []"
| "rows_from env eRec labels version (e # es) =
     detail_row env eRec labels (version + 1) e # rows_from env eRec labels (version + 1) es"

text \<open>
  For the examples: an environment without failures, where an ID is the aggregate ID
  followed by as many \<open>+\<close> as the version counts and the hash is the length of the
  aggregate ID; empty databases under the two schemas; a record of two details for a
  new aggregate; and a database that holds an event of another aggregate of the same
  type, saved under the idempotency key \<open>k1\<close>, with a record for a new aggregate under
  that key.
\<close>

definition demo_env :: pg_env where
  "demo_env =
     \<lparr>NewEventID = (\<lambda>t a v. a @ replicate (unat v) (CHR ''+'')),
      Hash = (\<lambda>a. word_of_nat (length a)),
      projectorFactory = False,
      BeginTx_err = None,
      Exec_err = (\<lambda>k. None),
      Commit_err = None,
      Query_err = None\<rparr>"


definition two_details :: EventRecord where
  "two_details =
     \<lparr>r_AggregateID = ''a1'', r_Version = 0, r_AggregateType = ''Account'',
      r_IdempotencyKey = '''', r_Labels = [(''geo'', LStr ''EU'')], r_CreatedAt = 5000000,
      r_Details = [\<lparr>d_Kind = ''AccountCreated'', d_Body = ''{}''\<rparr>,
                   \<lparr>d_Kind = ''MoneyDeposited'', d_Body = ''{10}''\<rparr>]\<rparr>"

definition keyed_row :: event_row where
  "keyed_row =
     \<lparr>e_id = ''a1+'', e_aggregate_id = ''a1'', e_aggregate_version = 1,
      e_aggregate_type = ''Account'', e_kind = ''MoneyWithdrawn'', e_body = ''{10}'',
      e_idempotency_key = Some ''k1'', e_labels = [], e_created_at = 4000000,
      e_aggregate_id_hash = 2\<rparr>"

definition keyed_db :: pg_db where
  "keyed_db = \<lparr>pg_indexes = dbSchema, pg_events = [keyed_row], pg_projected = []\<rparr>"

definition keyed_record :: EventRecord where
  "keyed_record =
     \<lparr>r_AggregateID = ''b2'', r_Version = 0, r_AggregateType = ''Account'',
      r_IdempotencyKey = ''k1'', r_Labels = [], r_CreatedAt = 5000000,
      r_Details = [\<lparr>d_Kind = ''MoneyDeposited'', d_Body = ''{10}''\<rparr>]\<rparr>"

text \<open>
  \<open>first_clash env indexes tbl rows k i\<close>: of the inserts of \<open>rows\<close> into \<open>tbl\<close>, run
  as the statements \<open>k\<close>, \<open>k + 1\<close>, ... of a transaction, the \<open>i\<close>-th is the first
  to fail, and it fails by colliding on a unique index: no statement up to it meets a
  failure of the driver, the rows before it collide with nothing, and it collides with
  a row of the table as it then stands.
\<close>

definition first_clash ::
  "pg_env \<Rightarrow> unique_index list \<Rightarrow> event_row list \<Rightarrow> event_row list \<Rightarrow> nat \<Rightarrow> nat \<Rightarrow> bool" where
  "first_clash env indexes tbl rows k i \<longleftrightarrow>
     (\<forall>j \<le> i. Exec_err env (k + j) = None)
     \<and> (\<forall>j < i. violated indexes (tbl @ take j rows) (rows ! j) = None)
     \<and> violated indexes (tbl @ take i rows) (rows ! i) \<noteq> None"

text \<open>
  For the examples of the queries: a table of four events of four aggregates, whose
  hashes are 0, 1, 2 and 3, inserted out of the order of their IDs.
\<close>

definition hashed_row :: "string \<Rightarrow> 32 word \<Rightarrow> time \<Rightarrow> event_row" where
  "hashed_row i h t =
     \<lparr>e_id = i, e_aggregate_id = i, e_aggregate_version = 1,
      e_aggregate_type = ''Account'', e_kind = ''AccountCreated'', e_body = ''{}'',
      e_idempotency_key = Some [], e_labels = [(''geo'', ''EU'')], e_created_at = t,
      e_aggregate_id_hash = h\<rparr>"

definition four_events :: pg_db where
  "four_events =
     \<lparr>pg_indexes = dbSchema_repo,
      pg_events = [hashed_row ''e3'' 2 3000, hashed_row ''e1'' 0 1000,
                   hashed_row ''e4'' 3 4000, hashed_row ''e2'' 1 2000],
      pg_projected = []\<rparr>"

definition no_filter :: Filter where
  "no_filter =
     \<lparr>f_AggregateTypes = [], f_Partitions = 0, f_PartitionsLow = 0, f_PartitionsHi = 0,
      f_Labels = []\<rparr>"

section \<open>The MongoDB feed (store/mongodb/listener.go)\<close>

text \<open>
  An element of the match document that \<open>partitionMatch\<close> builds:
  \<open>Cmp op field n v\<close> stands for \<open>{op: [{"$mod": [field, n]}, v]}\<close>. The elements of a
  match document hold together. The arithmetic is \<open>uint32\<close>'s.
\<close>

datatype cmp_op = OpEq | OpGte | OpLte

datatype match_cond = Cmp cmp_op string "32 word" "32 word"

definition partitionMatch :: "string \<Rightarrow> 32 word \<Rightarrow> 32 word \<Rightarrow> 32 word \<Rightarrow> match_cond list" where
  "partitionMatch field partitions partitionsLow partitionsHi =
     (if partitions = 0 then []
      else if partitionsLow = partitionsHi
           then [Cmp OpEq field partitions (partitionsLow - 1)]
           else [Cmp OpGte field partitions (partitionsLow - 1),
                 Cmp OpLte field partitions (partitionsHi - 1)])"

text \<open>A change document, as the values of its integer fields by name.\<close>

fun match_holds :: "(string \<Rightarrow> 32 word) \<Rightarrow> match_cond \<Rightarrow> bool" where
  "match_holds doc (Cmp OpEq field n v) = (unat (doc field) mod unat n = unat v)"
| "match_holds doc (Cmp OpGte field n v) = (unat (doc field) mod unat n \<ge> unat v)"
| "match_holds doc (Cmp OpLte field n v) = (unat (doc field) mod unat n \<le> unat v)"

definition matches :: "match_cond list \<Rightarrow> (string \<Rightarrow> 32 word) \<Rightarrow> bool" where
  "matches m doc = list_all (match_holds doc) m"

section \<open>The bootable projection manager (projection)\<close>

subsection \<open>boot\<close>

text \<open>
  The calls \<open>boot\<close> makes on its collaborators, as a log: the projection
  (\<open>GetResumeEventID\<close>, \<open>Handler\<close>), \<open>eventid.DelayEventID\<close>, the replayer
  (\<open>Replay\<close>), the subscriber (\<open>GetResumeToken\<close>, \<open>StartConsumer\<close>) and the
  repository (\<open>GetEvents\<close>, with its batch size, trailing lag and the aggregate types of
  its filter).
\<close>

datatype boot_call =
    CallGetResumeEventID
  | CallDelayEventID string duration
  | CallReplay string "string list"
  | CallGetResumeToken int
  | CallGetEvents string int duration "string list"
  | CallHandler Event
  | CallStartConsumer int string

text \<open>
  What the collaborators of \<open>boot\<close> look at: the events table of the store, the
  messages published so far on the bus topic of each partition (oldest first), and the
  clock. Other processes insert and publish while \<open>boot\<close> runs, so every call of
  \<open>boot\<close> meets a world of its own: a schedule gives the world that the call number
  \<open>k\<close> of \<open>boot\<close> meets, counted from 0 in the order of the log.
\<close>

record world =
  w_store :: "Event list"
  w_bus :: "int \<Rightarrow> Event list"
  w_now :: time

type_synonym schedule = "nat \<Rightarrow> world"

text \<open>
  The collaborators, as the answers they give; the replayer, the subscriber and the
  repository answer from the world they meet. \<open>player.TrailingLag\<close> and the
  replayer are not among the sources; they are fields here. A consumer's channel is a
  number.
\<close>

record boot_env =
  b_GetResumeEventID :: "error + string"
  b_GetAggregateTypes :: "string list"
  b_TrailingLag :: duration
  b_DelayEventID :: "string \<Rightarrow> duration \<Rightarrow> error + string"
  b_Replay :: "world \<Rightarrow> string \<Rightarrow> string list \<Rightarrow> error + string"
  b_GetResumeToken :: "world \<Rightarrow> int \<Rightarrow> error + string"
  b_GetEvents ::
    "world \<Rightarrow> string \<Rightarrow> int \<Rightarrow> duration \<Rightarrow> string list \<Rightarrow> error + Event list"
  b_Handler :: "Event \<Rightarrow> error option"
  b_StartConsumer :: "int \<Rightarrow> string \<Rightarrow> error + nat"

text \<open>
  The three loops of \<open>boot\<close>; each stops at the first error. The first one makes
  the calls number \<open>k\<close>, \<open>k + 1\<close>, ... of \<open>boot\<close>.
\<close>

fun get_tokens ::
  "boot_env \<Rightarrow> schedule \<Rightarrow> nat \<Rightarrow> int list \<Rightarrow> error option \<times> string list \<times> boot_call list" where
  "get_tokens env ws k [] = (None, [], [])"
| "get_tokens env ws k (p # ps) =
     (case b_GetResumeToken env (ws k) p of
        Inl err \<Rightarrow> (Some err, [], [CallGetResumeToken p])
      | Inr token \<Rightarrow>
          (case get_tokens env ws (Suc k) ps of
             (r, tokens, calls) \<Rightarrow> (r, token # tokens, CallGetResumeToken p # calls)))"

fun handle_events :: "boot_env \<Rightarrow> Event list \<Rightarrow> error option \<times> boot_call list" where
  "handle_events env [] = (None, [])"
| "handle_events env (event # events) =
     (case b_Handler env event of
        Some err \<Rightarrow> (Some err, [CallHandler event])
      | None \<Rightarrow>
          (case handle_events env events of
             (r, calls) \<Rightarrow> (r, CallHandler event # calls)))"

fun start_consumers ::
  "boot_env \<Rightarrow> (int \<times> string) list \<Rightarrow> error option \<times> nat list \<times> boot_call list" where
  "start_consumers env [] = (None, [], [])"
| "start_consumers env ((p, token) # pts) =
     (case b_StartConsumer env p token of
        Inl err \<Rightarrow> (Some err, [], [CallStartConsumer p token])
      | Inr ch \<Rightarrow>
          (case start_consumers env pts of
             (r, chans, calls) \<Rightarrow> (r, ch # chans, CallStartConsumer p token # calls)))"

text \<open>
  \<open>boot\<close>, for the partitions \<open>partitionLo\<close> to \<open>partitionHi\<close>: the error it returns
  (\<open>None\<close> is \<open>nil\<close>), the log of its calls, and the channels it stores in \<open>m.frozen\<close>
  (stored only when it succeeds). A negative \<open>partitionSize\<close> makes \<open>make\<close> panic.
  \<open>Replay\<close> is call number 2, the calls of \<open>GetResumeToken\<close> start at number 3, and
  \<open>GetEvents\<close> follows them.
\<close>

definition boot ::
  "boot_env \<Rightarrow> schedule \<Rightarrow> int \<Rightarrow> int \<Rightarrow> error option \<times> boot_call list \<times> nat list" where
  "boot env ws partitionLo partitionHi =
     (case b_GetResumeEventID env of
        Inl err \<Rightarrow>
          (Some (Wrap ''Could not get last event ID from the projection'' err),
           [CallGetResumeEventID], [])
      | Inr prjEventID \<Rightarrow>
          (let aggregateTypes = b_GetAggregateTypes env;
               calls1 = [CallGetResumeEventID, CallDelayEventID prjEventID (b_TrailingLag env)]
           in case b_DelayEventID env prjEventID (b_TrailingLag env) of
                Inl err \<Rightarrow> (Some (Wrap ''Error delaying the eventID'' err), calls1, [])
              | Inr delayed \<Rightarrow>
                  (let calls2 = calls1 @ [CallReplay delayed aggregateTypes]
                   in case b_Replay env (ws 2) delayed aggregateTypes of
                        Inl err \<Rightarrow>
                          (Some (Wrap ''Could not replay all events (first part)'' err), calls2, [])
                      | Inr lastEventID \<Rightarrow>
                          (if partitionHi - partitionLo + 1 < 0
                           then (Some (Panic ''makeslice: len out of range''), calls2, [])
                           else
                             (case get_tokens env ws 3 [partitionLo..partitionHi] of
                                (Some err, tokens, calls3) \<Rightarrow>
                                  (Some (Wrap ''Could not retrieve resume token'' err),
                                   calls2 @ calls3, [])
                              | (None, tokens, calls3) \<Rightarrow>
                                  (let calls4 = calls2 @ calls3
                                         @ [CallGetEvents lastEventID 0 0 aggregateTypes]
                                   in case b_GetEvents env (ws (3 + length tokens)) lastEventID 0 0
                                             aggregateTypes of
                                        Inl err \<Rightarrow>
                                          (Some (Wrap ''Could not replay all events (second part)'' err),
                                           calls4, [])
                                      | Inr events \<Rightarrow>
                                          (case handle_events env events of
                                             (Some err, calls5) \<Rightarrow>
                                               (Some (Wrap ''Error handling event'' err),
                                                calls4 @ calls5, [])
                                           | (None, calls5) \<Rightarrow>
                                               (case start_consumers env
                                                       (zip [partitionLo..partitionHi] tokens) of
                                                  (Some err, chans, calls6) \<Rightarrow>
                                                    (Some (Wrap ''Unable to start consumer'' err),
                                                     calls4 @ calls5 @ calls6, [])
                                                | (None, chans, calls6) \<Rightarrow>
                                                    (None, calls4 @ calls5 @ calls6, chans)))))))))"

subsection \<open>The store and the bus\<close>

text \<open>
  Modelled from the spec: the repository behind \<open>player.Repository\<close> is not among the
  sources (\<open>boot\<close> gives it a \<open>repo.Filter\<close>; the PostgreSQL repository above takes
  a \<open>store.Filter\<close>). \<open>GetEvents(afterID, batchSize, trailingLag, filter)\<close> gives the events of
  the store with an ID after \<open>afterID\<close> and of the aggregate types of the filter (of
  any type when it names none), created no later than the trailing lag before now when
  there is a lag, in ascending order of ID, no more than \<open>batchSize\<close> when that is
  positive.
\<close>

definition repo_GetEvents ::
  "world \<Rightarrow> string \<Rightarrow> int \<Rightarrow> duration \<Rightarrow> string list \<Rightarrow> error + Event list" where
  "repo_GetEvents w afterEventID batchSize trailingLag aggregateTypes =
     (let events = sort_key ev_ID
            (filter (\<lambda>e. afterEventID < ev_ID e
                       \<and> (aggregateTypes = [] \<or> ev_AggregateType e \<in> set aggregateTypes)
                       \<and> (trailingLag = 0 \<or> ev_CreatedAt e \<le> w_now w - trailingLag))
               (w_store w))
      in Inr (if batchSize > 0 then take (nat batchSize) events else events))"

text \<open>
  Modelled from the spec: the replayer (\<open>player.New(repository)\<close>) is not among the
  sources. \<open>Replay\<close> reads from the store the events after the given ID that are
  older than the player's trailing lag, hands each to the handler, and returns the ID
  of the last one (the given ID when there is none).
\<close>

definition replayer_Replay ::
  "duration \<Rightarrow> world \<Rightarrow> string \<Rightarrow> string list \<Rightarrow> error + string" where
  "replayer_Replay trailingLag w afterEventID aggregateTypes =
     (case repo_GetEvents w afterEventID 0 trailingLag aggregateTypes of
        Inl err \<Rightarrow> Inl err
      | Inr events \<Rightarrow> Inr (if events = [] then afterEventID else ev_ID (last events)))"

text \<open>
  Modelled from the spec: the bus behind \<open>Subscriber\<close> is not among the sources. A
  resume token is the cursor of a partition at the time of the call: the number of
  messages published on the partition so far, written as that many letters \<open>t\<close>. A
  consumer started with a token delivers to the handler the messages of its partition
  after the cursor, in a log that has grown since: \<open>consumed token log\<close>.
\<close>

definition bus_GetResumeToken :: "world \<Rightarrow> int \<Rightarrow> error + string" where
  "bus_GetResumeToken w p = Inr (replicate (length (w_bus w p)) (CHR ''t''))"



text \<open>
  For the examples: collaborators that answer every call, over one partition that
  carries every event and a second one that carries none; the consumer's channel of
  partition \<open>p\<close> is number \<open>p\<close>. The events were created at 4 ms and the clock
  reads one second, so they are older than the trailing lag of 250 ms. In
  \<open>demo_schedule\<close> the store holds \<open>e7\<close> when the replay runs, \<open>e8\<close> is
  inserted and published before the tokens are fetched, and \<open>e9\<close> after the second
  read of the store. In \<open>late_schedule\<close> the event \<open>e6\<close>, whose writer took its ID
  before \<open>e7\<close> was written and committed late, and the event \<open>e8\<close> of an aggregate
  type the projection does not ask for are inserted and published after the replay and
  before the tokens are fetched, and \<open>e9\<close> is inserted after the second read of the
  store and published on the topic of partition 3.
\<close>

definition tail_event :: "string \<Rightarrow> Event" where
  "tail_event i =
     \<lparr>ev_ID = i, ev_AggregateID = ''a1'', ev_AggregateVersion = 1,
      ev_AggregateType = ''Account'', ev_Kind = ''MoneyDeposited'', ev_Body = ''{}'',
      ev_Labels = [], ev_CreatedAt = 4000000\<rparr>"

definition demo_boot_env :: boot_env where
  "demo_boot_env =
     \<lparr>b_GetResumeEventID = Inr ''e5'',
      b_GetAggregateTypes = [''Account''],
      b_TrailingLag = 250000000,
      b_DelayEventID = (\<lambda>i d. Inr (''e4'')),
      b_Replay = replayer_Replay 250000000,
      b_GetResumeToken = bus_GetResumeToken,
      b_GetEvents = repo_GetEvents,
      b_Handler = (\<lambda>e. None),
      b_StartConsumer = (\<lambda>p t. Inr (nat p))\<rparr>"

definition one_topic :: "Event list \<Rightarrow> time \<Rightarrow> world" where
  "one_topic events now =
     \<lparr>w_store = events, w_bus = (\<lambda>p. if p = 1 then events else []), w_now = now\<rparr>"

definition demo_schedule :: schedule where
  "demo_schedule k =
     one_topic ([tail_event ''e7'']
                @ (if 3 \<le> k then [tail_event ''e8''] else [])
                @ (if 6 \<le> k then [tail_event ''e9''] else []))
       (1000000000 + int k)"

definition customer_event :: "string \<Rightarrow> Event" where
  "customer_event i = (tail_event i)\<lparr>ev_AggregateType := ''Customer''\<rparr>"

definition late_schedule :: schedule where
  "late_schedule k =
     \<lparr>w_store = [tail_event ''e7'']
                 @ (if 3 \<le> k then [tail_event ''e6'', customer_event ''e8''] else [])
                 @ (if 6 \<le> k then [tail_event ''e9''] else []),
      w_bus = (\<lambda>p. if p = 1
                     then [tail_event ''e7'']
                          @ (if 3 \<le> k then [tail_event ''e6'', customer_event ''e8''] else [])
                     else if p = 3 then (if 6 \<le> k then [tail_event ''e9''] else [])
                     else []),
      w_now = 1000000000 + int k\<rparr>"

subsection \<open>Freeze, Unfreeze and Wait\<close>

text \<open>
  The manager's fields, over a store of channels: \<open>m_chans\<close> lists every channel made
  so far, \<open>True\<close> for a closed one, and a channel is its index in that list. \<open>m_cancel\<close>
  is the cancel function of the boot context: \<open>None\<close> is \<open>nil\<close>, \<open>Some c\<close> tells
  whether it has been called.
\<close>

record BootableManager =
  m_chans :: "bool list"
  m_cancel :: "bool option"
  m_wait :: nat
  m_release :: nat
  m_closed :: bool
  m_frozen :: "nat list"
  m_hasLock :: bool

text \<open>
  A call returns a value and leaves a state, or blocks, or panics. \<open>Blocks\<close> says that
  the call cannot go on in the state it has reached: it waits for another goroutine.
\<close>

datatype 'a outcome = Returns 'a BootableManager | Blocks | Panics

definition make_chan :: "BootableManager \<Rightarrow> nat \<times> BootableManager" where
  "make_chan m = (length (m_chans m), m\<lparr>m_chans := m_chans m @ [False]\<rparr>)"

definition is_closed :: "BootableManager \<Rightarrow> nat \<Rightarrow> bool" where
  "is_closed m ch \<longleftrightarrow> ch < length (m_chans m) \<and> m_chans m ! ch"

text \<open>\<open>close(ch)\<close> panics on a channel that is closed already: \<open>None\<close>.\<close>

definition close_chan :: "BootableManager \<Rightarrow> nat \<Rightarrow> BootableManager option" where
  "close_chan m ch =
     (if ch < length (m_chans m) \<and> \<not> m_chans m ! ch
      then Some (m\<lparr>m_chans := (m_chans m)[ch := True]\<rparr>) else None)"

definition NewBootableManager :: BootableManager where
  "NewBootableManager =
     \<lparr>m_chans = [True, False], m_cancel = None, m_wait = 0, m_release = 1,
      m_closed = False, m_frozen = [], m_hasLock = False\<rparr>"

text \<open>
  \<open>OnBoot\<close>: a new cancel function, then \<open>boot\<close>, then \<open>StartNotifier\<close> (whose result
  is the argument \<open>notifier\<close>); an error of either cancels the context. A successful
  \<open>boot\<close> stores the channels of the consumers it started, which are new channels of
  the store.
\<close>

definition OnBoot ::
  "boot_env \<Rightarrow> schedule \<Rightarrow> error option \<Rightarrow> int \<Rightarrow> int \<Rightarrow> BootableManager
     \<Rightarrow> error option \<times> BootableManager" where
  "OnBoot env ws notifier partitionLo partitionHi m =
     (let m1 = m\<lparr>m_cancel := Some False\<rparr>
      in case boot env ws partitionLo partitionHi of
           (Some err, calls, chans) \<Rightarrow> (Some err, m1\<lparr>m_cancel := Some True\<rparr>)
         | (None, calls, chans) \<Rightarrow>
             (let n = length (m_chans m1);
                  m2 = m1\<lparr>m_chans := m_chans m1 @ replicate (length chans) False,
                          m_frozen := [n ..< n + length chans]\<rparr>
              in case notifier of
                   Some err \<Rightarrow> (Some err, m2\<lparr>m_cancel := Some True\<rparr>)
                 | None \<Rightarrow> (None, m2\<lparr>m_hasLock := True\<rparr>)))"

text \<open>
  \<open>Wait\<close> reads \<open>m.wait\<close> under the mutex (\<open>Wait_enter\<close>: the channel the caller
  then receives from), blocks until that channel is closed, and then makes a new
  \<open>release\<close> channel and returns it (\<open>Wait_leave\<close>). \<open>Wait\<close> is the whole call in one
  state.
\<close>

definition Wait_enter :: "BootableManager \<Rightarrow> nat" where
  "Wait_enter m = m_wait m"

definition Wait_leave :: "BootableManager \<Rightarrow> nat outcome" where
  "Wait_leave m = (case make_chan m of (r, m') \<Rightarrow> Returns r (m'\<lparr>m_release := r\<rparr>))"

definition Wait :: "BootableManager \<Rightarrow> nat outcome" where
  "Wait m = (if is_closed m (Wait_enter m) then Wait_leave m else Blocks)"

text \<open>
  What the consumers do once the boot context is cancelled: \<open>stops ch\<close> tells whether
  the consumer of channel \<open>ch\<close> closes it.
\<close>

definition consumers_stop :: "(nat \<Rightarrow> bool) \<Rightarrow> BootableManager \<Rightarrow> BootableManager" where
  "consumers_stop stops m =
     (if m_cancel m = Some True
      then m\<lparr>m_chans := map (\<lambda>(ch, c). c \<or> (ch \<in> set (m_frozen m) \<and> stops ch))
                            (zip [0 ..< length (m_chans m)] (m_chans m))\<rparr>
      else m)"

text \<open>
  \<open>Freeze\<close>: cancel, a new open \<open>wait\<close> channel, \<open>closed\<close> reset, the \<open>release\<close>
  channel closed and replaced; with the lock held, a receive from every channel of
  \<open>frozen\<close>, which blocks while one of them stays open; then the lock flag is read,
  cleared and returned.
\<close>

definition Freeze :: "(nat \<Rightarrow> bool) \<Rightarrow> BootableManager \<Rightarrow> bool outcome" where
  "Freeze stops m =
     (let m1 = (case m_cancel m of None \<Rightarrow> m | Some c \<Rightarrow> m\<lparr>m_cancel := Some True\<rparr>)
      in case make_chan m1 of
           (w, m2) \<Rightarrow>
             (let m3 = m2\<lparr>m_wait := w, m_closed := False\<rparr>
              in case close_chan m3 (m_release m3) of
                   None \<Rightarrow> Panics
                 | Some m4 \<Rightarrow>
                     (case make_chan m4 of
                        (r, m5) \<Rightarrow>
                          (let m6 = consumers_stop stops (m5\<lparr>m_release := r\<rparr>)
                           in if m_hasLock m6 \<and> \<not> list_all (is_closed m6) (m_frozen m6)
                              then Blocks
                              else Returns (m_hasLock m6) (m6\<lparr>m_hasLock := False\<rparr>)))))"

definition Unfreeze :: "BootableManager \<Rightarrow> unit outcome" where
  "Unfreeze m =
     (if \<not> m_closed m
      then (case close_chan m (m_wait m) of
              None \<Rightarrow> Panics
            | Some m' \<Rightarrow> Returns () (m'\<lparr>m_closed := True\<rparr>))
      else Returns () m)"

definition Cancel :: "BootableManager \<Rightarrow> BootableManager" where
  "Cancel m = (case m_cancel m of None \<Rightarrow> m | Some c \<Rightarrow> m\<lparr>m_cancel := Some True\<rparr>)"

text \<open>
  A channel on which a caller of \<open>Wait\<close> is blocked for good: it is open, and the
  manager holds it in no field, so that no method of the manager closes it.
\<close>

definition stranded :: "BootableManager \<Rightarrow> nat \<Rightarrow> bool" where
  "stranded m ch \<longleftrightarrow>
     ch < length (m_chans m) \<and> \<not> m_chans m ! ch
     \<and> ch \<noteq> m_wait m \<and> ch \<noteq> m_release m \<and> ch \<notin> set (m_frozen m)"

text \<open>The state a call leaves (for the examples; the state given when it does not return).\<close>

definition state_after :: "'a outcome \<Rightarrow> BootableManager \<Rightarrow> BootableManager" where
  "state_after out m = (case out of Returns x m' \<Rightarrow> m' | _ \<Rightarrow> m)"

definition booted :: BootableManager where
  "booted = snd (OnBoot demo_boot_env demo_schedule None 1 2 NewBootableManager)"

text \<open>
  A manager whose fields name channels of the store. The states of the examples: the
  manager after a successful \<open>OnBoot\<close> over two partitions, after a \<open>Freeze\<close>, after
  a second \<open>Freeze\<close>, and after the \<open>Unfreeze\<close> that follows.
\<close>

definition wf_manager :: "BootableManager \<Rightarrow> bool" where
  "wf_manager m \<longleftrightarrow>
     m_wait m < length (m_chans m) \<and> m_release m < length (m_chans m)
     \<and> list_all (\<lambda>ch. ch < length (m_chans m)) (m_frozen m)"

definition frozen_once :: BootableManager where
  "frozen_once = state_after (Freeze (\<lambda>ch. True) booted) booted"

definition frozen_twice :: BootableManager where
  "frozen_twice = state_after (Freeze (\<lambda>ch. True) frozen_once) frozen_once"

definition unfrozen :: BootableManager where
  "unfrozen = state_after (Unfreeze frozen_twice) frozen_twice"

section \<open>Theorems: worker balancing\<close>

lemma membersCount_eq:
  "membersCount self members
     = length members + (if self \<in> set (map mw_Name members) then 0 else 1)"
  by (auto simp: membersCount_def present_def list_ex_iff)

lemma membersCount_pos: "0 < membersCount self members"
  by (cases members) (simp_all add: membersCount_def present_def)

lemma length_myRunningWorkers:
  "length (myRunningWorkers workers) = card (w_Name ` {v \<in> set workers. w_IsRunning v})"
proof -
  have "set (map w_Name (filter w_IsRunning workers)) = w_Name ` {v \<in> set workers. w_IsRunning v}"
    by auto
  then show ?thesis
    by (simp add: myRunningWorkers_def length_remdups_card_conv del: set_map set_filter)
qed

text \<open>
  C5 (as the code has it). With \<open>W\<close> the number of workers and \<open>M\<close> the number of
  listed members, plus one when this process is not listed, the target handed to
  \<open>balance\<close> is \<open>W div M\<close>, and one more exactly when \<open>W mod M\<close> is not zero, every
  listed member (this process's own entry included, when it is listed) claims at
  least \<open>W div M\<close> workers, and at least \<open>W div M\<close> distinct local workers are
  running.
\<close>

theorem run_target:
  "snd (snd (snd (run self (Inr members) workers)))
     = Some (let W = length workers;
                 M = length members + (if self \<in> set (map mw_Name members) then 0 else 1)
             in if W mod M \<noteq> 0
                   \<and> (\<forall>m \<in> set members. W div M \<le> length (mw_Workers m))
                   \<and> W div M \<le> card (w_Name ` {v \<in> set workers. w_IsRunning v})
                then W div M + 1 else W div M)"
proof -
  have t: "snd (snd (snd (run self (Inr members) workers)))
             = Some (workersToAcquire self members workers)"
    by (simp add: run_def Let_def split: prod.splits)
  have a: "allHaveMinWorkers self members workers
             \<longleftrightarrow> (\<forall>m \<in> set members. minWorkers self members workers \<le> length (mw_Workers m))
                 \<and> minWorkers self members workers
                     \<le> card (w_Name ` {v \<in> set workers. w_IsRunning v})"
    by (auto simp: allHaveMinWorkers_def Let_def list_all_iff length_myRunningWorkers
          not_less)
  show ?thesis
    unfolding t workersToAcquire_def a
    by (simp add: minWorkers_def membersCount_eq Let_def)
qed

theorem run_target_witness:
  "snd (snd (snd (run ''m1'' (Inr [\<lparr>mw_Name = ''m1'', mw_Workers = [''w2'']\<rparr>,
                                   \<lparr>mw_Name = ''m2'', mw_Workers = [''w1'']\<rparr>])
       [\<lparr>w_Name = ''w1'', w_IsRunning = False, w_StartOk = True\<rparr>,
        \<lparr>w_Name = ''w2'', w_IsRunning = True, w_StartOk = True\<rparr>,
        \<lparr>w_Name = ''w3'', w_IsRunning = False, w_StartOk = True\<rparr>]))) = Some 2"
proof -
  have c: "card (w_Name ` {v \<in> set
       [\<lparr>w_Name = ''w1'', w_IsRunning = False, w_StartOk = True\<rparr>,
        \<lparr>w_Name = ''w2'', w_IsRunning = True, w_StartOk = True\<rparr>,
        \<lparr>w_Name = ''w3'', w_IsRunning = False, w_StartOk = True\<rparr>]. w_IsRunning v}) = 1"
    unfolding length_myRunningWorkers [symmetric] by (simp add: myRunningWorkers_def)
  have d: "Suc (Suc (Suc 0)) div Suc (Suc 0) = Suc 0"
    and m: "Suc (Suc (Suc 0)) mod Suc (Suc 0) = Suc 0"
    by code_simp+
  show ?thesis
    unfolding run_target c by (simp add: d m)
qed

text \<open>
  The claim as worded fails where this process is listed with fewer claimed workers
  than the minimum while that many of its workers are running: three workers, two
  members, the other member claims one worker, one local worker runs, and this
  process's own entry claims none. The code keeps the target at 1.
\<close>

theorem run_target_counterexample:
  "workersToAcquire ''m1'' [\<lparr>mw_Name = ''m1'', mw_Workers = []\<rparr>,
                            \<lparr>mw_Name = ''m2'', mw_Workers = [''w1'']\<rparr>]
       [\<lparr>w_Name = ''w1'', w_IsRunning = False, w_StartOk = True\<rparr>,
        \<lparr>w_Name = ''w2'', w_IsRunning = True, w_StartOk = True\<rparr>,
        \<lparr>w_Name = ''w3'', w_IsRunning = False, w_StartOk = True\<rparr>] = 1
   \<and> spec_target ''m1'' [\<lparr>mw_Name = ''m1'', mw_Workers = []\<rparr>,
                          \<lparr>mw_Name = ''m2'', mw_Workers = [''w1'']\<rparr>]
       [\<lparr>w_Name = ''w1'', w_IsRunning = False, w_StartOk = True\<rparr>,
        \<lparr>w_Name = ''w2'', w_IsRunning = True, w_StartOk = True\<rparr>,
        \<lparr>w_Name = ''w3'', w_IsRunning = False, w_StartOk = True\<rparr>] = 2"
  by code_simp

section \<open>Theorems: EventStore.Save\<close>


lemma Truncate_Millisecond_mod: "Truncate t Millisecond mod Millisecond = 0"
  by (simp add: Truncate_def Millisecond_def minus_mod_eq_mult_div)


lemma save_now_cases:
  "save_now now updatedAt
     = (if updatedAt < Truncate now Millisecond then Truncate now Millisecond
        else updatedAt + Millisecond)"
  by (auto simp: save_now_def Let_def)


lemma Save_calls_record:
  assumes "Save es now now2 st aggregate opts = (res, a', st', calls)"
    and "CallSaveEvent rec \<in> set calls"
  shows "r_CreatedAt rec = save_now now (ag_UpdatedAt aggregate)
         \<and> r_Version rec = ag_Version aggregate
         \<and> r_AggregateID rec = ag_ID aggregate
         \<and> encode_details es (ag_Events aggregate) = Inr (r_Details rec)"
  using assms
  by (auto simp: Save_def Let_def split: if_splits sum.splits prod.splits option.splits)

text \<open>
  C9. An aggregate with no pending events: \<open>Save\<close> returns \<open>nil\<close>, makes no call on
  the repository (neither \<open>SaveEvent\<close> nor \<open>SaveSnapshot\<close>), and leaves the store and
  the aggregate, its version included, as they were.
\<close>

theorem Save_no_events:
  "ag_Events aggregate = [] \<Longrightarrow> Save es now now2 st aggregate opts = (None, aggregate, st, [])"
  by (simp add: Save_def)

theorem Save_no_events_witness:
  "Save \<lparr>store_SaveEvent = (\<lambda>s r. (Inr (''id'', r_Version r + 1), Suc s)),
         store_SaveSnapshot = (\<lambda>s x. (None, Suc s)),
         snapshotThreshold = 0,
         codec_Encode = (\<lambda>e. Inr e),
         codec_EncodeAggregate = (\<lambda>a. Inr ''{}''),
         e_GetType = (\<lambda>e. ''Deposited'')\<rparr>
      5000000 5000001 (0::nat)
      \<lparr>ag_Type = ''Account'', ag_ID = ''a1'', ag_Version = 7, ag_EventsCounter = 7,
        ag_Events = [], ag_UpdatedAt = 4000000\<rparr>
      \<lparr>o_IdempotencyKey = '''', o_Labels = []\<rparr>
   = (None,
      \<lparr>ag_Type = ''Account'', ag_ID = ''a1'', ag_Version = 7, ag_EventsCounter = 7,
        ag_Events = [], ag_UpdatedAt = 4000000\<rparr>,
      0, [])"
  by (rule Save_no_events) simp

text \<open>
  C3 (as the code has it). When \<open>SaveEvent\<close> has succeeded and the \<open>SaveSnapshot\<close> that
  follows fails, \<open>Save\<close> returns the error of \<open>SaveSnapshot\<close>; the store is as
  \<open>SaveSnapshot\<close> left it and the aggregate carries the new version.
\<close>

theorem Save_snapshot_failure:
  assumes "Save es now now2 st aggregate opts
             = (res, a', st', [CallSaveEvent rec, CallSaveSnapshot snap])"
    and "store_SaveEvent es st rec = (Inr (eid, lastVersion), st1)"
    and "store_SaveSnapshot es st1 snap = (Some err, st2)"
  shows "res = Some err \<and> st' = st2 \<and> ag_Version a' = lastVersion"
  using assms
  by (auto simp: Save_def Let_def SetVersion_def
        split: if_splits sum.splits prod.splits option.splits)

lemma Save_failing_snapshots:
  "Save failing_snapshots 5000900 5000950 0 one_pending \<lparr>o_IdempotencyKey = '''', o_Labels = []\<rparr>
   = (Some (Failure ''snapshots table is gone''),
      one_pending\<lparr>ag_Version := 8\<rparr>,
      1,
      [CallSaveEvent \<lparr>r_AggregateID = ''a1'', r_Version = 7, r_AggregateType = ''Account'',
                      r_IdempotencyKey = '''', r_Labels = [], r_CreatedAt = 5000000,
                      r_Details = [\<lparr>d_Kind = ''Deposited'', d_Body = ''{amount: 5}''\<rparr>]\<rparr>,
       CallSaveSnapshot \<lparr>s_ID = ''id'', s_AggregateID = ''a1'', s_AggregateVersion = 8,
                         s_AggregateType = ''Account'', s_Body = ''{}'',
                         s_CreatedAt = 5000950\<rparr>])"
  by (simp add: Save_def failing_snapshots_def one_pending_def save_now_def Truncate_def
        Millisecond_def SetVersion_def Let_def)

theorem Save_snapshot_failure_witness:
  "fst (Save failing_snapshots 5000900 5000950 0 one_pending
          \<lparr>o_IdempotencyKey = '''', o_Labels = []\<rparr>)
     = Some (Failure ''snapshots table is gone'')
   \<and> fst (snd (snd (Save failing_snapshots 5000900 5000950 0 one_pending
          \<lparr>o_IdempotencyKey = '''', o_Labels = []\<rparr>))) = 1"
proof -
  obtain res a' st' where
    S: "Save failing_snapshots 5000900 5000950 0 one_pending
          \<lparr>o_IdempotencyKey = '''', o_Labels = []\<rparr>
        = (res, a', st',
           [CallSaveEvent \<lparr>r_AggregateID = ''a1'', r_Version = 7, r_AggregateType = ''Account'',
                      r_IdempotencyKey = '''', r_Labels = [], r_CreatedAt = 5000000,
                      r_Details = [\<lparr>d_Kind = ''Deposited'', d_Body = ''{amount: 5}''\<rparr>]\<rparr>,
            CallSaveSnapshot \<lparr>s_ID = ''id'', s_AggregateID = ''a1'', s_AggregateVersion = 8,
                         s_AggregateType = ''Account'', s_Body = ''{}'',
                         s_CreatedAt = 5000950\<rparr>])"
    using Save_failing_snapshots by blast
  have "res = Some (Failure ''snapshots table is gone'') \<and> st' = 1 \<and> ag_Version a' = 8"
    by (rule Save_snapshot_failure [OF S, where ?st1.0 = 1 and eid = "''id''"])
       (simp_all add: failing_snapshots_def)
  then show ?thesis
    by (simp add: S)
qed

theorem Save_snapshot_failure_counterexample:
  "fst (Save failing_snapshots 5000900 5000950 0 one_pending
          \<lparr>o_IdempotencyKey = '''', o_Labels = []\<rparr>) \<noteq> None
   \<and> fst (store_SaveEvent failing_snapshots 0
            \<lparr>r_AggregateID = ''a1'', r_Version = 7, r_AggregateType = ''Account'',
              r_IdempotencyKey = '''', r_Labels = [], r_CreatedAt = 5000000,
              r_Details = [\<lparr>d_Kind = ''Deposited'', d_Body = ''{amount: 5}''\<rparr>]\<rparr>)
        = Inr (''id'', 8)"
  by (simp add: Save_failing_snapshots) (simp add: failing_snapshots_def)

lemma Save_keeps_UpdatedAt:
  assumes "Save es now now2 st aggregate opts = (res, a', st', calls)"
  shows "ag_UpdatedAt a' = ag_UpdatedAt aggregate"
  using assms
  by (auto simp: Save_def Let_def SetVersion_def ClearEvents_def
        split: if_splits sum.splits prod.splits option.splits)

lemma save_now_same_aggregate:
  assumes "u mod Millisecond = 0"
    and "Truncate now3 Millisecond \<le> Truncate now Millisecond"
  shows "save_now now3 u \<le> save_now now u"
proof (cases "u < Truncate now3 Millisecond")
  case True
  with assms(2) show ?thesis by (simp add: save_now_cases)
next
  case False
  show ?thesis
  proof (cases "u < Truncate now Millisecond")
    case late: True
    have "(Truncate now Millisecond - u) mod Millisecond = 0"
      using assms(1) Truncate_Millisecond_mod [of now]
      by (simp add: mod_diff_eq [symmetric])
    then have "Millisecond dvd (Truncate now Millisecond - u)"
      by (simp add: dvd_eq_mod_eq_0)
    moreover have "0 < Truncate now Millisecond - u"
      using late by simp
    ultimately have "Millisecond \<le> Truncate now Millisecond - u"
      by (rule zdvd_imp_le)
    with False late show ?thesis by (simp add: save_now_cases)
  next
    case early: False
    with False show ?thesis by (simp add: save_now_cases)
  qed
qed

text \<open>
  \<open>Save\<close> leaves the update time of the aggregate as it found it. So an aggregate
  that is saved again as the first save left it (with the pending events of the second
  save), while the clock has not reached a later millisecond, is not stamped later
  than the first time.
\<close>

lemma Save_again_not_later:
  assumes "Save es now now2 st aggregate opts = (res, a', st', calls)"
    and "CallSaveEvent rec \<in> set calls"
    and "Save es2 now3 now4 st2 aggregate2 opts2 = (res2, a2', st2', calls2)"
    and "CallSaveEvent rec2 \<in> set calls2"
    and "ag_UpdatedAt aggregate2 = ag_UpdatedAt a'"
    and "ag_UpdatedAt aggregate mod Millisecond = 0"
    and "Truncate now3 Millisecond \<le> Truncate now Millisecond"
  shows "r_CreatedAt rec2 \<le> r_CreatedAt rec"
proof -
  have c: "r_CreatedAt rec = save_now now (ag_UpdatedAt aggregate)"
    using Save_calls_record [OF assms(1,2)] by simp
  have c2: "r_CreatedAt rec2 = save_now now3 (ag_UpdatedAt aggregate2)"
    using Save_calls_record [OF assms(3,4)] by simp
  have k: "ag_UpdatedAt a' = ag_UpdatedAt aggregate"
    by (rule Save_keeps_UpdatedAt [OF assms(1)])
  show ?thesis
    unfolding c c2 assms(5) k by (rule save_now_same_aggregate [OF assms(6,7)])
qed










section \<open>Theorems: SaveEvent\<close>

lemma length_rows_from [simp]: "length (rows_from env eRec labels v es) = length es"
  by (induction es arbitrary: v) simp_all





lemma first_clash_0:
  "first_clash env ixs tbl (r # rows) k 0
     \<longleftrightarrow> Exec_err env k = None \<and> violated ixs tbl r \<noteq> None"
  by (simp add: first_clash_def)

lemma first_clash_Suc:
  "first_clash env ixs tbl (r # rows) k (Suc i)
     \<longleftrightarrow> Exec_err env k = None \<and> violated ixs tbl r = None
         \<and> first_clash env ixs (tbl @ [r]) rows (Suc k) i"
proof -
  have a: "(\<forall>j \<le> Suc i. Exec_err env (k + j) = None)
             \<longleftrightarrow> Exec_err env k = None \<and> (\<forall>j \<le> i. Exec_err env (Suc k + j) = None)"
  proof
    assume h: "\<forall>j \<le> Suc i. Exec_err env (k + j) = None"
    then have "Exec_err env (k + 0) = None" by blast
    moreover have "\<forall>j \<le> i. Exec_err env (Suc k + j) = None"
    proof (intro allI impI)
      fix j assume "j \<le> i"
      then have "Suc j \<le> Suc i" by simp
      with h have "Exec_err env (k + Suc j) = None" by blast
      then show "Exec_err env (Suc k + j) = None" by simp
    qed
    ultimately show "Exec_err env k = None \<and> (\<forall>j \<le> i. Exec_err env (Suc k + j) = None)"
      by simp
  next
    assume h: "Exec_err env k = None \<and> (\<forall>j \<le> i. Exec_err env (Suc k + j) = None)"
    show "\<forall>j \<le> Suc i. Exec_err env (k + j) = None"
    proof (intro allI impI)
      fix j assume le: "j \<le> Suc i"
      show "Exec_err env (k + j) = None"
      proof (cases j)
        case 0
        with h show ?thesis by simp
      next
        case (Suc j')
        with le have "j' \<le> i" by simp
        with h have "Exec_err env (Suc k + j') = None" by blast
        with Suc show ?thesis by simp
      qed
    qed
  qed
  have b: "(\<forall>j < Suc i. violated ixs (tbl @ take j (r # rows)) ((r # rows) ! j) = None)
             \<longleftrightarrow> violated ixs tbl r = None
                 \<and> (\<forall>j < i. violated ixs ((tbl @ [r]) @ take j rows) (rows ! j) = None)"
    by (simp add: All_less_Suc2)
  show ?thesis
    unfolding first_clash_def a b by auto
qed

lemma insert_details_dup:
  assumes nd: "\<forall>k e. Exec_err env k = Some e \<longrightarrow> \<not> isPgDup e"
  shows "fst (insert_details env eRec labels k (v, i0) tx es) = Some ErrConcurrentModification
           \<longleftrightarrow> (\<exists>i < length es.
                  first_clash env (pg_indexes tx) (pg_events tx)
                    (rows_from env eRec labels v es) k i)"
proof (induction es arbitrary: k v i0 tx)
  case Nil
  show ?case by simp
next
  case (Cons e es)
  let ?row = "detail_row env eRec labels (v + 1) e"
  let ?rows = "rows_from env eRec labels (v + 1) es"
  have split: "(\<exists>i < length (e # es).
                  first_clash env (pg_indexes tx) (pg_events tx)
                    (rows_from env eRec labels v (e # es)) k i)
        \<longleftrightarrow> Exec_err env k = None
            \<and> (violated (pg_indexes tx) (pg_events tx) ?row \<noteq> None
               \<or> (\<exists>i < length es.
                     first_clash env (pg_indexes tx) (pg_events tx @ [?row]) ?rows (Suc k) i))"
    by (auto simp: Ex_less_Suc2 first_clash_0 first_clash_Suc)
  show ?case
  proof (cases "Exec_err env k")
    case (Some err)
    with nd have "\<not> isPgDup err" by blast
    with Some show ?thesis
      unfolding split by (simp add: ExecContext_insert_def Let_def)
  next
    case None
    show ?thesis
    proof (cases "violated (pg_indexes tx) (pg_events tx) ?row")
      case (Some c)
      with None show ?thesis
        unfolding split
        by (simp add: ExecContext_insert_def Let_def isPgDup_def)
    next
      case vNone: None
      let ?tx1 = "tx\<lparr>pg_events := pg_events tx @ [?row]\<rparr>"
      let ?tx2 = "if projectorFactory env
                  then ?tx1\<lparr>pg_projected := pg_projected ?tx1 @ [row_Event ?row]\<rparr> else ?tx1"
      have step: "insert_details env eRec labels k (v, i0) tx (e # es)
                    = insert_details env eRec labels (Suc k) (v + 1, e_id ?row) ?tx2 es"
        using None vNone by (simp add: ExecContext_insert_def Let_def)
      have tx2: "pg_events ?tx2 = pg_events tx @ [?row]" "pg_indexes ?tx2 = pg_indexes tx"
        by simp_all
      show ?thesis
        unfolding split step Cons.IH tx2 using None vNone by simp
    qed
  qed
qed

lemma SaveEvent_error_is_loop_error:
  assumes "json_Marshal (r_Labels eRec) = Inr labels" and "BeginTx_err env = None"
  shows "fst (SaveEvent env db eRec) = Inl ErrConcurrentModification
           \<longleftrightarrow> fst (insert_details env eRec labels 0 (r_Version eRec, []) db (r_Details eRec))
                 = Some ErrConcurrentModification"
  using assms
  by (cases "insert_details env eRec labels 0 (r_Version eRec, []) db (r_Details eRec)")
     (auto simp: SaveEvent_def withTx_def split: option.splits prod.splits)

lemma SaveEvent_early_errors:
  "json_Marshal (r_Labels eRec) = Inl err \<or> BeginTx_err env \<noteq> None
     \<Longrightarrow> fst (SaveEvent env db eRec) \<noteq> Inl ErrConcurrentModification"
  by (auto simp: SaveEvent_def withTx_def json_Marshal_def split: if_splits)

lemma violated_iff:
  "violated indexes tbl r \<noteq> None \<longleftrightarrow> (\<exists>ix \<in> set indexes. \<exists>x \<in> set tbl. snd ix r x)"
  by (simp add: violated_def find_None_iff list_ex_iff) force

lemma violated_dbSchema:
  "violated dbSchema tbl r \<noteq> None
     \<longleftrightarrow> (\<exists>x \<in> set tbl.
            e_id r = e_id x
            \<or> (e_aggregate_id r = e_aggregate_id x
                \<and> e_aggregate_version r = e_aggregate_version x)
            \<or> (e_aggregate_type r = e_aggregate_type x
                \<and> e_idempotency_key r \<noteq> None
                \<and> e_idempotency_key r = e_idempotency_key x))"
  unfolding violated_iff
  by (auto simp: dbSchema_def events_pkey_def evt_agg_id_ver_uk_def evt_agg_idempot_uk_def)

text \<open>
  C2 (as the code has it). Let the driver's own failures not be unique violations.
  Then \<open>SaveEvent\<close> returns \<open>ErrConcurrentModification\<close> exactly when the first
  insert that fails is refused by the table for a collision on one of its unique
  indexes, whichever it is: under the schema of the tests, the primary key,
  \<open>(aggregate_id, aggregate_version)\<close> or \<open>(aggregate_type, idempotency_key)\<close>
  (lemma \<open>violated_dbSchema\<close>). No other error stands for a duplicate idempotency key.
\<close>

theorem SaveEvent_ConcurrentModification:
  assumes "\<forall>k e. Exec_err env k = Some e \<longrightarrow> \<not> isPgDup e"
  shows "fst (SaveEvent env db eRec) = Inl ErrConcurrentModification
           \<longleftrightarrow> (\<exists>labels i.
                  json_Marshal (r_Labels eRec) = Inr labels
                  \<and> BeginTx_err env = None
                  \<and> i < length (r_Details eRec)
                  \<and> (\<forall>j \<le> i. Exec_err env j = None)
                  \<and> (\<forall>j < i.
                        violated (pg_indexes db)
                          (pg_events db
                             @ take j (rows_from env eRec labels (r_Version eRec) (r_Details eRec)))
                          (rows_from env eRec labels (r_Version eRec) (r_Details eRec) ! j)
                        = None)
                  \<and> violated (pg_indexes db)
                        (pg_events db
                           @ take i (rows_from env eRec labels (r_Version eRec) (r_Details eRec)))
                        (rows_from env eRec labels (r_Version eRec) (r_Details eRec) ! i)
                      \<noteq> None)"
proof (cases "json_Marshal (r_Labels eRec)")
  case (Inl err)
  then show ?thesis
    using SaveEvent_early_errors [of eRec err env db] by simp
next
  case (Inr labels)
  show ?thesis
  proof (cases "BeginTx_err env")
    case (Some msg)
    then show ?thesis
      using SaveEvent_early_errors [of eRec _ env db] by simp
  next
    case None
    show ?thesis
      unfolding SaveEvent_error_is_loop_error [OF Inr None]
        insert_details_dup [OF assms] first_clash_def
      using Inr None by simp
  qed
qed

theorem SaveEvent_ConcurrentModification_witness:
  "fst (SaveEvent demo_env
          \<lparr>pg_indexes = dbSchema,
            pg_events = [detail_row demo_env two_details [(''geo'', ''EU'')] 1
                           \<lparr>d_Kind = ''AccountCreated'', d_Body = ''{}''\<rparr>],
            pg_projected = []\<rparr>
          (two_details\<lparr>r_Details := [\<lparr>d_Kind = ''MoneyDeposited'', d_Body = ''{10}''\<rparr>]\<rparr>))
     = Inl ErrConcurrentModification"
proof -
  let ?db = "\<lparr>pg_indexes = dbSchema,
            pg_events = [detail_row demo_env two_details [(''geo'', ''EU'')] 1
                           \<lparr>d_Kind = ''AccountCreated'', d_Body = ''{}''\<rparr>],
            pg_projected = []\<rparr>"
  let ?rec = "two_details\<lparr>r_Details := [\<lparr>d_Kind = ''MoneyDeposited'', d_Body = ''{10}''\<rparr>]\<rparr>"
  have nd: "\<forall>k e. Exec_err demo_env k = Some e \<longrightarrow> \<not> isPgDup e"
    by (simp add: demo_env_def)
  have m: "json_Marshal (r_Labels ?rec) = Inr [(''geo'', ''EU'')]"
    by (simp add: json_Marshal_def two_details_def)
  have b: "BeginTx_err demo_env = None" and x: "Exec_err demo_env 0 = None"
    by (simp_all add: demo_env_def)
  have v: "violated (pg_indexes ?db)
             (pg_events ?db @ take 0 (rows_from demo_env ?rec [(''geo'', ''EU'')] (r_Version ?rec)
                                        (r_Details ?rec)))
             (rows_from demo_env ?rec [(''geo'', ''EU'')] (r_Version ?rec) (r_Details ?rec) ! 0)
           \<noteq> None"
    unfolding violated_iff
    by (simp add: dbSchema_def evt_agg_id_ver_uk_def events_pkey_def detail_row_def
          two_details_def)
  show ?thesis
    unfolding SaveEvent_ConcurrentModification [OF nd]
    by (intro exI [of _ "[(''geo'', ''EU'')]"] exI [of _ 0] conjI m b v) (simp_all add: x)
qed

text \<open>
  The claim as worded fails on a duplicate idempotency key: the table holds an event
  of aggregate \<open>a1\<close> saved under the key \<open>k1\<close>; saving the first event of the new
  aggregate \<open>b2\<close> of the same type under \<open>k1\<close> collides on \<open>evt_agg_idempot_uk\<close> only
  (no row has the aggregate ID and version of the new row), and the call returns
  \<open>ErrConcurrentModification\<close>.
\<close>

theorem SaveEvent_ConcurrentModification_counterexample:
  "fst (SaveEvent demo_env keyed_db keyed_record) = Inl ErrConcurrentModification
   \<and> violated dbSchema (pg_events keyed_db)
        (detail_row demo_env keyed_record [] 1 \<lparr>d_Kind = ''MoneyDeposited'', d_Body = ''{10}''\<rparr>)
       = Some ''evt_agg_idempot_uk''
   \<and> \<not> list_ex (\<lambda>x. e_aggregate_id x = ''b2'' \<and> e_aggregate_version x = 1) (pg_events keyed_db)
   \<and> snd (SaveEvent demo_env keyed_db keyed_record) = keyed_db"
proof -
  have 1: "fst (SaveEvent demo_env keyed_db keyed_record) = Inl ErrConcurrentModification"
    by code_simp
  have 2: "violated dbSchema (pg_events keyed_db)
        (detail_row demo_env keyed_record [] 1 \<lparr>d_Kind = ''MoneyDeposited'', d_Body = ''{10}''\<rparr>)
       = Some ''evt_agg_idempot_uk''"
    by code_simp
  have 3: "\<not> list_ex (\<lambda>x. e_aggregate_id x = ''b2'' \<and> e_aggregate_version x = 1)
               (pg_events keyed_db)"
    by code_simp
  have 4: "snd (SaveEvent demo_env keyed_db keyed_record) = keyed_db"
    using 1
    by (cases "SaveEvent demo_env keyed_db keyed_record")
       (auto simp: SaveEvent_def withTx_def split: sum.splits option.splits prod.splits)
  from 1 2 3 4 show ?thesis by blast
qed


section \<open>Theorems: GetEvents and the partition filters\<close>

lemma buildFilter_extends:
  "buildFilter fltr query args = (query', args')
     \<Longrightarrow> (\<exists>qs. query' = query @ qs) \<and> (\<exists>as. args' = args @ as)"
  by (auto simp: buildFilter_def Let_def split: if_splits)

lemma arg_append1: "1 \<le> n \<Longrightarrow> n \<le> length args \<Longrightarrow> arg (args @ as) n = arg args n"
  by (auto simp: arg_def nth_append)

lemma arg_beyond: "length args < n \<Longrightarrow> arg args n = None"
  by (simp add: arg_def)

lemma GetEvents_unfold:
  "\<exists>query2 args2.
     buildFilter fltr
         (if trailingLag \<noteq> 0 then [IdGt 1, CreatedAtLe 2] else [IdGt 1])
         (if trailingLag \<noteq> 0 then [AStr afterEventID, ATime (now - trailingLag)]
          else [AStr afterEventID])
       = (query2, args2)
     \<and> GetEvents env now db afterEventID batchSize trailingLag fltr
         = (case queryEvents env db
                   \<lparr>q_where = query2,
                     q_limit = (if batchSize > 0 then Some (nat batchSize) else None)\<rparr> args2 of
              Inl err \<Rightarrow> Inl (Wrap ''Unable to get events'' err)
            | Inr rows \<Rightarrow> Inr rows)"
proof -
  let ?query1 = "if trailingLag \<noteq> 0 then [IdGt 1, CreatedAtLe 2] else [IdGt 1]"
  let ?args1 = "if trailingLag \<noteq> 0 then [AStr afterEventID, ATime (now - trailingLag)]
                else [AStr afterEventID]"
  obtain query2 args2 where bf: "buildFilter fltr ?query1 ?args1 = (query2, args2)"
    by (cases "buildFilter fltr ?query1 ?args1")
  then have "GetEvents env now db afterEventID batchSize trailingLag fltr
              = (case queryEvents env db
                        \<lparr>q_where = query2,
                          q_limit = (if batchSize > 0 then Some (nat batchSize) else None)\<rparr> args2 of
                   Inl err \<Rightarrow> Inl (Wrap ''Unable to get events'' err)
                 | Inr rows \<Rightarrow> Inr rows)"
    by (auto simp: GetEvents_def Let_def split: if_splits)
  with bf show ?thesis by blast
qed

text \<open>
  The query that \<open>GetEvents\<close> writes selects what the claim describes: rows of the
  table with an ID after \<open>afterEventID\<close> and, for a trailing lag, created no later
  than \<open>now - trailingLag\<close>, in ascending order of ID, no more than the limit.
\<close>

lemma GetEvents_selects:
  assumes bf: "buildFilter fltr
         (if trailingLag \<noteq> 0 then [IdGt 1, CreatedAtLe 2] else [IdGt 1])
         (if trailingLag \<noteq> 0 then [AStr afterEventID, ATime (now - trailingLag)]
          else [AStr afterEventID])
       = (query2, args2)"
    and rows: "rows = select_rows db \<lparr>q_where = query2, q_limit = lim\<rparr> args2"
  shows "sorted (map e_id rows)
         \<and> (\<forall>r \<in> set rows. r \<in> set (pg_events db)
              \<and> afterEventID < e_id r
              \<and> (trailingLag \<noteq> 0 \<longrightarrow> e_created_at r \<le> now - trailingLag))
         \<and> (\<forall>n. lim = Some n \<longrightarrow> length rows \<le> n)"
proof -
  let ?query1 = "if trailingLag \<noteq> 0 then [IdGt 1, CreatedAtLe 2] else [IdGt 1]"
  let ?args1 = "if trailingLag \<noteq> 0 then [AStr afterEventID, ATime (now - trailingLag)]
                else [AStr afterEventID]"
  from buildFilter_extends [OF bf] obtain qs as where
    q2: "query2 = ?query1 @ qs" and a2: "args2 = ?args1 @ as"
    by blast
  let ?sel = "sort_key e_id (filter (\<lambda>r. list_all (cond_holds args2 r) query2) (pg_events db))"
  have r: "rows = (case lim of None \<Rightarrow> ?sel | Some n \<Rightarrow> take n ?sel)"
    unfolding rows by (simp add: select_rows_def Let_def)
  have sub: "set rows \<subseteq> set ?sel"
    unfolding r by (auto split: option.splits dest: in_set_takeD)
  have a1: "arg_str args2 1 = Some afterEventID"
    unfolding a2 by (simp add: arg_str_def arg_def)
  have a2t: "trailingLag \<noteq> 0 \<Longrightarrow> arg_time args2 2 = Some (now - trailingLag)"
    unfolding a2 by (simp add: arg_time_def arg_def)
  have sel: "\<forall>r \<in> set ?sel. r \<in> set (pg_events db)
                \<and> afterEventID < e_id r
                \<and> (trailingLag \<noteq> 0 \<longrightarrow> e_created_at r \<le> now - trailingLag)"
  proof (intro ballI)
    fix r assume "r \<in> set ?sel"
    then have r: "r \<in> set (pg_events db)" and h: "list_all (cond_holds args2 r) query2"
      by simp_all
    from h have "cond_holds args2 r (IdGt 1)"
      unfolding q2 by (simp split: if_splits)
    with a1 have lt: "afterEventID < e_id r" by simp
    have "trailingLag \<noteq> 0 \<longrightarrow> e_created_at r \<le> now - trailingLag"
    proof
      assume nz: "trailingLag \<noteq> 0"
      with h have "cond_holds args2 r (CreatedAtLe 2)"
        unfolding q2 by simp
      with a2t [OF nz] show "e_created_at r \<le> now - trailingLag" by simp
    qed
    with r lt show "r \<in> set (pg_events db) \<and> afterEventID < e_id r
                \<and> (trailingLag \<noteq> 0 \<longrightarrow> e_created_at r \<le> now - trailingLag)"
      by simp
  qed
  have srt: "sorted (map e_id rows)"
    unfolding r by (simp add: take_map [symmetric] sorted_wrt_take split: option.splits)
  have len: "\<forall>n. lim = Some n \<longrightarrow> length rows \<le> n"
    unfolding r by simp
  from srt sel sub len show ?thesis by blast
qed

text \<open>
  The scan of a row fails, whatever the row: the result set has the column
  \<open>aggregate_id_hash\<close>, and the struct has no field for it. So \<open>queryEvents\<close> fails as
  soon as one row is selected, and \<open>GetEvents\<close> never returns an event.
\<close>

lemma unscanned_column:
  "find (\<lambda>c. c \<notin> set Event_db_tags) events_columns = Some ''aggregate_id_hash''"
  by code_simp

lemma StructScan_fails:
  "StructScan r = Inl (Failure ''missing destination name aggregate_id_hash'')"
  by (simp add: StructScan_def unscanned_column)

lemma scan_rows_fails:
  "rows \<noteq> []
     \<Longrightarrow> scan_rows rows
           = Inl (Wrap ''Unable to scan to struct''
                    (Failure ''missing destination name aggregate_id_hash''))"
  by (cases rows) (simp_all add: StructScan_fails)

lemma scan_rows_Inr: "scan_rows rows = Inr events \<Longrightarrow> rows = [] \<and> events = []"
  by (cases rows) (simp_all add: StructScan_fails)

lemma GetEvents_returns_no_event:
  assumes "GetEvents env now db afterEventID batchSize trailingLag fltr = Inr evs"
  shows "evs = []"
proof -
  from GetEvents_unfold [of fltr trailingLag afterEventID now env db batchSize]
  obtain query2 args2 where
    ge: "GetEvents env now db afterEventID batchSize trailingLag fltr
           = (case queryEvents env db
                     \<lparr>q_where = query2,
                       q_limit = (if batchSize > 0 then Some (nat batchSize) else None)\<rparr> args2 of
                Inl err \<Rightarrow> Inl (Wrap ''Unable to get events'' err)
              | Inr rows \<Rightarrow> Inr rows)"
    by blast
  from assms show ?thesis
    unfolding ge
    by (auto simp: queryEvents_def split: sum.splits option.splits if_splits
          dest: scan_rows_Inr)
qed


subsection \<open>The partition conditions\<close>

text \<open>
  What holds of the claim about the partition filters: the match of the change stream
  retains exactly the documents whose hash modulo \<open>N\<close> lies between \<open>lo - 1\<close> and
  \<open>hi - 1\<close> (equal to \<open>lo - 1\<close> when \<open>lo = hi\<close>), and is empty for \<open>N = 0\<close>; the SQL
  filter has no partition condition for \<open>N = 0\<close> and, for \<open>lo = hi\<close>, the condition
  that the hash modulo \<open>N\<close> equals \<open>lo - 1\<close>.
\<close>

lemma partitionMatch_disabled: "partitionMatch field 0 lo hi = []"
  by (simp add: partitionMatch_def)

lemma partitionMatch_selects:
  assumes "partitions \<noteq> 0" and "lo \<noteq> 0" and "hi \<noteq> 0"
  shows "matches (partitionMatch field partitions lo hi) doc
           \<longleftrightarrow> (if lo = hi then unat (doc field) mod unat partitions = unat lo - 1
                else unat lo - 1 \<le> unat (doc field) mod unat partitions
                     \<and> unat (doc field) mod unat partitions \<le> unat hi - 1)"
  using assms by (auto simp: matches_def partitionMatch_def unat_minus_one)

lemma buildFilter_disabled:
  "f_Partitions fltr = 0
     \<Longrightarrow> buildFilter fltr query args
         = (query
              @ (if f_AggregateTypes fltr = [] then []
                 else [AggregateTypeIn
                         [length args + 1 ..< length args + 1 + length (f_AggregateTypes fltr)]])
              @ map (\<lambda>kv. LabelsGroup (escape (fst kv)) (map escape (snd kv))) (f_Labels fltr),
            args @ map AStr (f_AggregateTypes fltr))"
  by (simp add: buildFilter_def Let_def)

lemma buildFilter_single:
  assumes "f_Partitions fltr \<noteq> 0" and "f_PartitionsLow fltr = f_PartitionsHi fltr"
    and "f_AggregateTypes fltr = []" and "f_Labels fltr = []"
  shows "buildFilter fltr query args
           = (query @ [HashModEq (length args + 1) (length args + 2)],
              args @ [AInt (uint (f_Partitions fltr)), AInt (uint (f_PartitionsLow fltr - 1))])"
  using assms by (simp add: buildFilter_def Let_def word_greater_zero_iff)

lemma HashModEq_selects:
  "cond_holds (args @ [AInt (uint n), AInt (uint (lo - 1))]) r
       (HashModEq (length args + 1) (length args + 2))
     \<longleftrightarrow> uint (e_aggregate_id_hash r) mod uint n = uint (lo - 1)"
  by (simp add: arg_int_def arg_def nth_append)

lemma buildFilter_range_unbound:
  assumes "f_Partitions fltr \<noteq> 0" and "f_PartitionsLow fltr \<noteq> f_PartitionsHi fltr"
    and "buildFilter fltr query args = (query', args')"
  shows "\<not> list_all (cond_ok args') query'"
proof -
  let ?args1 = "if length (f_AggregateTypes fltr) > 0
                then args @ map AStr (f_AggregateTypes fltr) else args"
  let ?c = "HashModBetween (length ?args1 + 1) (length ?args1 + 2) (length ?args1 + 4)"
  from assms have a: "args' = ?args1 @ [AInt (uint (f_Partitions fltr)),
                                        AInt (uint (f_PartitionsLow fltr - 1)),
                                        AInt (uint (f_PartitionsHi fltr - 1))]"
    and q: "?c \<in> set query'"
    by (auto simp: buildFilter_def Let_def word_greater_zero_iff split: if_splits)
  have "length args' < length ?args1 + 4"
    unfolding a by simp
  then have "arg_int args' (length ?args1 + 4) = None"
    by (simp add: arg_int_def arg_beyond)
  then have nok: "\<not> cond_ok args' ?c"
    by simp
  show ?thesis
    unfolding list_all_iff using q nok by blast
qed

text \<open>
  C7, where the code departs from it. With \<open>N > 0\<close> and \<open>lo \<noteq> hi\<close> the text that
  \<open>buildFilter\<close> writes names the placeholders \<open>$size+1\<close>, \<open>$size+2\<close> and \<open>$size+4\<close>,
  while three arguments are appended: the upper bound is never bound, the statement
  cannot run, and \<open>GetEvents\<close> returns an error whatever the table holds.
\<close>

theorem GetEvents_partition_range:
  assumes "f_Partitions fltr \<noteq> 0" and "f_PartitionsLow fltr \<noteq> f_PartitionsHi fltr"
  shows "\<exists>err. GetEvents env now db afterEventID batchSize trailingLag fltr = Inl err"
proof -
  let ?query1 = "if trailingLag \<noteq> 0 then [IdGt 1, CreatedAtLe 2] else [IdGt 1]"
  let ?args1 = "if trailingLag \<noteq> 0 then [AStr afterEventID, ATime (now - trailingLag)]
                else [AStr afterEventID]"
  obtain query2 args2 where bf: "buildFilter fltr ?query1 ?args1 = (query2, args2)"
    by (cases "buildFilter fltr ?query1 ?args1")
  have bad: "\<not> list_all (cond_ok args2) query2"
    by (rule buildFilter_range_unbound [OF assms bf])
  have ge: "GetEvents env now db afterEventID batchSize trailingLag fltr
              = (case queryEvents env db
                        \<lparr>q_where = query2,
                          q_limit = (if batchSize > 0 then Some (nat batchSize) else None)\<rparr> args2 of
                   Inl err \<Rightarrow> Inl (Wrap ''Unable to get events'' err)
                 | Inr rows \<Rightarrow> Inr rows)"
    using bf by (auto simp: GetEvents_def Let_def split: if_splits)
  show ?thesis
    unfolding ge using bad by (simp add: queryEvents_def split: option.splits)
qed

theorem GetEvents_partition_range_witness:
  "GetEvents demo_env 5000 four_events [] 0 0 (no_filter\<lparr>f_Partitions := 4, f_PartitionsLow := 1, f_PartitionsHi := 2\<rparr>)
     = Inl (Wrap ''Unable to get events'' (PqError ''42601'' []))
   \<and> map e_id (filter (\<lambda>r. 0 \<le> unat (e_aggregate_id_hash r) mod 4
                             \<and> unat (e_aggregate_id_hash r) mod 4 \<le> 1)
                  (pg_events four_events)) = [''e1'', ''e2'']"
proof -
  have "\<exists>err. GetEvents demo_env 5000 four_events [] 0 0
                (no_filter\<lparr>f_Partitions := 4, f_PartitionsLow := 1, f_PartitionsHi := 2\<rparr>)
              = Inl err"
    by (rule GetEvents_partition_range) (simp_all add: no_filter_def)
  moreover have "GetEvents demo_env 5000 four_events [] 0 0
                (no_filter\<lparr>f_Partitions := 4, f_PartitionsLow := 1, f_PartitionsHi := 2\<rparr>)
     = Inl (Wrap ''Unable to get events'' (PqError ''42601'' []))"
    by code_simp
  moreover have "map e_id (filter (\<lambda>r. 0 \<le> unat (e_aggregate_id_hash r) mod 4
                             \<and> unat (e_aggregate_id_hash r) mod 4 \<le> 1)
                  (pg_events four_events)) = [''e1'', ''e2'']"
    by code_simp
  ultimately show ?thesis by blast
qed

lemma select_single_partition:
  "buildFilter (no_filter\<lparr>f_Partitions := 4, f_PartitionsLow := 2, f_PartitionsHi := 2\<rparr>)
       [IdGt 1] [AStr []]
     = ([IdGt 1, HashModEq 2 3], [AStr [], AInt 4, AInt 1])
   \<and> select_rows four_events \<lparr>q_where = [IdGt 1, HashModEq 2 3], q_limit = None\<rparr>
         [AStr [], AInt 4, AInt 1]
       = [hashed_row ''e2'' 1 2000]"
  by code_simp

section \<open>Theorems: BootableManager.boot\<close>














text \<open>The store of \<open>late_schedule\<close> only grows, and its bus carries stored events only.\<close>

lemma late_schedule_world:
  "(\<forall>i j. i \<le> j \<longrightarrow> set (w_store (late_schedule i)) \<subseteq> set (w_store (late_schedule j)))
   \<and> (\<forall>i p. set (w_bus (late_schedule i) p) \<subseteq> set (w_store (late_schedule i)))"
  by (auto simp: late_schedule_def)


section \<open>Theorems: Freeze, Unfreeze and Wait\<close>

lemma consumers_stop_fields [simp]:
  "m_wait (consumers_stop stops m) = m_wait m"
  "m_release (consumers_stop stops m) = m_release m"
  "m_closed (consumers_stop stops m) = m_closed m"
  "m_frozen (consumers_stop stops m) = m_frozen m"
  "m_hasLock (consumers_stop stops m) = m_hasLock m"
  "m_cancel (consumers_stop stops m) = m_cancel m"
  "length (m_chans (consumers_stop stops m)) = length (m_chans m)"
  by (simp_all add: consumers_stop_def)

lemma consumers_stop_nth:
  "ch < length (m_chans m)
     \<Longrightarrow> m_chans (consumers_stop stops m) ! ch
           = (m_chans m ! ch
              \<or> (m_cancel m = Some True \<and> ch \<in> set (m_frozen m) \<and> stops ch))"
  by (simp add: consumers_stop_def)

text \<open>What a \<open>Freeze\<close> that returns has done to the fields.\<close>

lemma Freeze_Returns:
  assumes "Freeze stops m = Returns locked m'"
  shows "locked = m_hasLock m"
    and "\<not> m_hasLock m'"
    and "m_wait m' = length (m_chans m)"
    and "m_release m' = Suc (length (m_chans m))"
    and "\<not> m_closed m'"
    and "m_frozen m' = m_frozen m"
    and "length (m_chans m') = Suc (Suc (length (m_chans m)))"
  using assms
  by (auto simp: Freeze_def make_chan_def close_chan_def Let_def
        split: option.splits if_splits)

lemma Freeze_Returns_chans:
  assumes "Freeze stops m = Returns locked m'" and "ch < length (m_chans m)"
  shows "m_chans m' ! ch
           = (m_chans m ! ch \<or> ch = m_release m
              \<or> (m_cancel m \<noteq> None \<and> ch \<in> set (m_frozen m) \<and> stops ch))"
  using assms
  by (auto simp: Freeze_def make_chan_def close_chan_def Let_def consumers_stop_nth
        nth_append nth_list_update
        split: option.splits if_splits)

lemma Freeze_wait_open:
  assumes "Freeze stops m = Returns locked m'" and "wf_manager m"
  shows "\<not> is_closed m' (m_wait m')"
proof -
  have fresh: "length (m_chans m) \<notin> set (m_frozen m)"
    using assms(2) by (auto simp: wf_manager_def list_all_iff)
  have rel: "m_release m < length (m_chans m)"
    using assms(2) by (simp add: wf_manager_def)
  from assms(1) fresh rel show ?thesis
    by (auto simp: Freeze_def make_chan_def close_chan_def Let_def consumers_stop_nth
          is_closed_def nth_append nth_list_update
          split: option.splits if_splits)
qed

text \<open>
  What holds of the claim: a \<open>Freeze\<close> that returns gives back exactly the lock flag
  of the call, leaves the flag cleared and the manager with an open \<open>wait\<close> channel,
  so that a \<open>Wait\<close> blocks; an \<open>Unfreeze\<close> in that state closes that channel, and a
  \<open>Wait\<close> returns again.
\<close>

lemma Freeze_then_Wait_Unfreeze:
  assumes "Freeze stops m = Returns locked m'" and "wf_manager m"
  shows "locked = m_hasLock m \<and> \<not> m_hasLock m' \<and> Wait m' = Blocks
         \<and> (\<exists>m''. Unfreeze m' = Returns () m''
                \<and> is_closed m'' (Wait_enter m')
                \<and> (\<exists>r m3. Wait m'' = Returns r m3))"
proof -
  note f = Freeze_Returns [OF assms(1)]
  have open_w: "\<not> is_closed m' (m_wait m')"
    by (rule Freeze_wait_open [OF assms])
  have inr: "m_wait m' < length (m_chans m')"
    using f by simp
  with open_w have nth: "\<not> m_chans m' ! m_wait m'"
    by (simp add: is_closed_def)
  let ?m2 = "m'\<lparr>m_chans := (m_chans m')[m_wait m' := True], m_closed := True\<rparr>"
  have u: "Unfreeze m' = Returns () ?m2"
    using f inr nth by (simp add: Unfreeze_def close_chan_def)
  have c: "is_closed ?m2 (Wait_enter m')"
    using inr by (simp add: is_closed_def Wait_enter_def)
  have w: "\<exists>r m3. Wait ?m2 = Returns r m3"
    using inr by (simp add: Wait_def Wait_leave_def Wait_enter_def is_closed_def make_chan_def)
  have b: "Wait m' = Blocks"
    using open_w by (simp add: Wait_def Wait_enter_def)
  from f(1,2) b u c w show ?thesis by blast
qed

text \<open>No call of the manager closes a stranded channel, or takes it up again.\<close>

lemma stranded_Freeze:
  "stranded m ch \<Longrightarrow> Freeze stops m = Returns locked m' \<Longrightarrow> stranded m' ch"
  using Freeze_Returns [of stops m locked m'] Freeze_Returns_chans [of stops m locked m' ch]
  by (auto simp: stranded_def)

lemma stranded_Unfreeze:
  "stranded m ch \<Longrightarrow> Unfreeze m = Returns u m' \<Longrightarrow> stranded m' ch"
  by (auto simp: stranded_def Unfreeze_def close_chan_def nth_list_update
        split: if_splits option.splits)

lemma stranded_Wait:
  "stranded m ch \<Longrightarrow> Wait m = Returns r m' \<Longrightarrow> stranded m' ch"
  by (auto simp: stranded_def Wait_def Wait_leave_def make_chan_def nth_append
        split: if_splits)

lemma stranded_Cancel: "stranded m ch \<Longrightarrow> stranded (Cancel m) ch"
  by (auto simp: stranded_def Cancel_def split: option.splits)

lemma stranded_OnBoot:
  "stranded m ch \<Longrightarrow> stranded (snd (OnBoot env ws notifier lo hi m)) ch"
  by (auto simp: stranded_def OnBoot_def Let_def nth_append
        split: prod.splits option.splits)

lemma stranded_blocks: "stranded m ch \<Longrightarrow> \<not> is_closed m ch"
  by (simp add: stranded_def is_closed_def)

text \<open>
  C8, where the code departs from it. A manager that holds the lock is frozen:
  \<open>Freeze\<close> returns \<open>true\<close> and clears the flag, and a caller of \<open>Wait\<close> blocks on the
  new \<open>wait\<close> channel. A second \<open>Freeze\<close> before the \<open>Unfreeze\<close> returns \<open>false\<close> and
  replaces the \<open>wait\<close> channel without closing it. The \<open>Unfreeze\<close> that follows
  closes the second channel only: the first caller's channel is stranded, so that
  caller stays blocked, whatever the manager is asked to do next.
\<close>

theorem Freeze_twice_strands_waiter:
  "Freeze (\<lambda>ch. True) booted = Returns True frozen_once
   \<and> m_hasLock booted \<and> \<not> m_hasLock frozen_once
   \<and> Wait frozen_once = Blocks
   \<and> Freeze (\<lambda>ch. True) frozen_once = Returns False frozen_twice
   \<and> Unfreeze frozen_twice = Returns () unfrozen
   \<and> \<not> is_closed unfrozen (Wait_enter frozen_once)
   \<and> stranded unfrozen (Wait_enter frozen_once)"
  by code_simp

lemma Unfreeze_before_Freeze: "Unfreeze NewBootableManager = Panics"
  by code_simp

lemma wf_NewBootableManager: "wf_manager NewBootableManager"
  by (simp add: wf_manager_def NewBootableManager_def)

lemma wf_Freeze:
  "wf_manager m \<Longrightarrow> Freeze stops m = Returns locked m' \<Longrightarrow> wf_manager m'"
  using Freeze_Returns [of stops m locked m']
  by (auto simp: wf_manager_def list_all_iff)

lemma wf_Unfreeze: "wf_manager m \<Longrightarrow> Unfreeze m = Returns u m' \<Longrightarrow> wf_manager m'"
  by (auto simp: wf_manager_def Unfreeze_def close_chan_def split: if_splits option.splits)

lemma wf_Wait: "wf_manager m \<Longrightarrow> Wait m = Returns r m' \<Longrightarrow> wf_manager m'"
  by (fastforce simp: wf_manager_def Wait_def Wait_leave_def make_chan_def list_all_iff
        less_Suc_eq split: if_splits)

lemma wf_OnBoot: "wf_manager m \<Longrightarrow> wf_manager (snd (OnBoot env ws notifier lo hi m))"
  by (auto simp: wf_manager_def OnBoot_def Let_def list_all_iff
        split: prod.splits option.splits)

lemma Freeze_then_Wait_Unfreeze_booted:
  "wf_manager booted
   \<and> Freeze (\<lambda>ch. True) booted = Returns True frozen_once
   \<and> Wait frozen_once = Blocks
   \<and> Unfreeze frozen_once
       = Returns () (frozen_once\<lparr>m_chans := (m_chans frozen_once)[4 := True], m_closed := True\<rparr>)
   \<and> is_closed (frozen_once\<lparr>m_chans := (m_chans frozen_once)[4 := True], m_closed := True\<rparr>)
        (Wait_enter frozen_once)"
  by code_simp

text \<open>
  \<open>Freeze\<close> returns when the \<open>release\<close> channel is open and, with the lock held,
  the boot context can be cancelled and every consumer closes its channel.
\<close>

lemma Freeze_returns:
  assumes "wf_manager m" and "\<not> is_closed m (m_release m)"
    and "m_hasLock m \<longrightarrow> m_cancel m \<noteq> None
           \<and> list_all (\<lambda>ch. stops ch \<or> is_closed m ch) (m_frozen m)"
  shows "\<exists>m'. Freeze stops m = Returns (m_hasLock m) m'"
proof -
  from assms(1) have rel: "m_release m < length (m_chans m)"
    and fr: "\<forall>ch \<in> set (m_frozen m). ch < length (m_chans m)"
    by (auto simp: wf_manager_def list_all_iff)
  from assms(2) rel have op: "\<not> m_chans m ! m_release m"
    by (simp add: is_closed_def)
  show ?thesis
  proof (cases "m_hasLock m")
    case False
    with rel op show ?thesis
      by (simp add: Freeze_def make_chan_def close_chan_def Let_def nth_append
            split: option.splits)
  next
    case True
    with assms(3) obtain c where c: "m_cancel m = Some c"
      and st: "\<forall>ch \<in> set (m_frozen m). stops ch \<or> is_closed m ch"
      by (auto simp: list_all_iff)
    let ?m5 = "m\<lparr>m_cancel := Some True, m_chans := m_chans m @ [False],
                  m_wait := length (m_chans m), m_closed := False,
                  m_chans := (m_chans m @ [False])[m_release m := True] @ [False],
                  m_release := Suc (length (m_chans m))\<rparr>"
    have all: "list_all (is_closed (consumers_stop stops ?m5)) (m_frozen m)"
      unfolding list_all_iff
    proof
      fix ch assume ch: "ch \<in> set (m_frozen m)"
      with fr have lt: "ch < length (m_chans m)" by blast
      from st ch have "stops ch \<or> is_closed m ch" by blast
      with lt ch rel show "is_closed (consumers_stop stops ?m5) ch"
        by (cases "ch = m_release m")
           (auto simp: is_closed_def consumers_stop_nth nth_append nth_list_update)
    qed
    from True c rel op all show ?thesis
      by (simp add: Freeze_def make_chan_def close_chan_def Let_def nth_append)
  qed
qed

end
